theory Spec2Isabelle
  imports Complex_Main "HOL-Library.Sublist"
begin

section \<open>PhotoBooth.jsx: catalogs\<close>

text \<open>
  JavaScript numbers are modelled as exact rationals (\<^typ>\<open>rat\<close>) where the source divides,
  and as \<^typ>\<open>nat\<close> / \<^typ>\<open>int\<close> where it only counts. The rounding of IEEE doubles is
  not modelled.
\<close>

record filter_entry =
  f_id :: string
  f_name :: string
  f_class :: string
  canvasFilter :: string

definition FILTERS :: "filter_entry list" where
  "FILTERS =
    [\<lparr>f_id = ''normal'', f_name = ''Natural'', f_class = '''', canvasFilter = ''none''\<rparr>,
     \<lparr>f_id = ''warm'', f_name = ''Golden Hour'',
      f_class = ''sepia-[.3] contrast-110 saturate-125 hue-rotate-[-10deg]'',
      canvasFilter = ''sepia(30%) contrast(110%) saturate(125%) hue-rotate(-10deg)''\<rparr>,
     \<lparr>f_id = ''vintage'', f_name = ''Vintage'',
      f_class = ''sepia-[.6] contrast-90 brightness-90 saturate-85'',
      canvasFilter = ''sepia(60%) contrast(90%) brightness(90%) saturate(85%)''\<rparr>,
     \<lparr>f_id = ''bw'', f_name = ''Classic B&W'',
      f_class = ''grayscale contrast-110 brightness-110'',
      canvasFilter = ''grayscale(100%) contrast(110%) brightness(110%)''\<rparr>,
     \<lparr>f_id = ''noir'', f_name = ''Noir'',
      f_class = ''grayscale contrast-150 brightness-90'',
      canvasFilter = ''grayscale(100%) contrast(150%) brightness(90%)''\<rparr>,
     \<lparr>f_id = ''soft'', f_name = ''Pastel'',
      f_class = ''contrast-90 brightness-110 saturate-85'',
      canvasFilter = ''contrast(90%) brightness(110%) saturate(85%)''\<rparr>,
     \<lparr>f_id = ''cyber'', f_name = ''Cyberpunk'',
      f_class = ''contrast-125 saturate-150 hue-rotate-[180deg] brightness-110'',
      canvasFilter = ''contrast(125%) saturate(150%) hue-rotate(180deg) brightness(110%)''\<rparr>,
     \<lparr>f_id = ''cool'', f_name = ''Cool Tone'',
      f_class = ''hue-rotate-[30deg] saturate-90 contrast-110'',
      canvasFilter = ''hue-rotate(30deg) saturate(90%) contrast(110%)''\<rparr>]"

text \<open>The \<open>icon\<close> field of an overlay is a JSX element used by the buttons only; it is left out.\<close>

record overlay_entry =
  o_id :: string
  o_name :: string

definition OVERLAYS :: "overlay_entry list" where
  "OVERLAYS =
    [\<lparr>o_id = ''none'', o_name = ''None''\<rparr>,
     \<lparr>o_id = ''hearts'', o_name = ''Hearts''\<rparr>,
     \<lparr>o_id = ''sparkles'', o_name = ''Sparkles''\<rparr>,
     \<lparr>o_id = ''vignette'', o_name = ''Vignette''\<rparr>,
     \<lparr>o_id = ''grain'', o_name = ''Film Grain''\<rparr>]"

definition PROMPTS :: "string list" where
  "PROMPTS =
    [''Lean in close...'', ''Give a gentle hug!'', ''Big smiles!'', ''Look at each other...'',
     ''Blow a kiss!'', ''Make a silly face!'', ''Strike a pose!'', ''Chin up, smile!'']"

section \<open>Strip layout and the crop rectangle\<close>

definition photoWidth :: rat where "photoWidth = 600"
definition photoHeight :: rat where "photoHeight = 450"
definition gap :: rat where "gap = 30"
definition sidePadding :: rat where "sidePadding = 80"
definition topPadding :: rat where "topPadding = 60"
definition bottomPadding :: rat where "bottomPadding = 100"

definition totalWidth :: rat where
  "totalWidth = photoWidth + (sidePadding * 2)"

definition totalHeight :: rat where
  "totalHeight = topPadding + (photoHeight * 3) + (gap * 2) + bottomPadding"

record crop =
  sx :: rat
  sy :: rat
  sW :: rat
  sH :: rat

text \<open>
  The ``Aspect Fit/Crop Calculation'' of \<open>img.onload\<close>; \<open>sWidth\<close> and \<open>sHeight\<close> are
  \<open>img.width\<close> and \<open>img.height\<close>. (For \<open>sHeight = 0\<close> JavaScript yields \<open>Infinity\<close> or
  \<open>NaN\<close>, HOL yields 0: the model is meant for positive sizes only.)
\<close>

definition cropRect :: "rat \<Rightarrow> rat \<Rightarrow> crop" where
  "cropRect sWidth sHeight =
    (let sRatio = sWidth / sHeight;
         dRatio = photoWidth / photoHeight
     in if sRatio > dRatio
        then (let sH' = sHeight; sW' = sH' * dRatio
              in \<lparr>sx = (sWidth - sW') / 2, sy = 0, sW = sW', sH = sH'\<rparr>)
        else (let sW' = sWidth; sH' = sW' / dRatio
              in \<lparr>sx = 0, sy = (sHeight - sH') / 2, sW = sW', sH = sH'\<rparr>))"

section \<open>Captured photos and loaded images\<close>

type_synonym rgba = "nat \<times> nat \<times> nat \<times> nat"

record bitmap =
  b_width :: nat
  b_height :: nat
  b_rows :: "rgba list list"

text \<open>
  What \<open>canvas.toDataURL(type, quality)\<close> returns: the string \<open>data:,\<close> for a canvas
  without pixels, and otherwise the canvas bitmap in the requested encoding. The bytes of
  an encoding are not modelled; a data URL is the pair of the encoding and the bitmap that
  was encoded. PNG is the only lossless encoding a canvas offers.
\<close>

datatype encoding = PNG | JPEG rat | WEBP rat

datatype data_url = NoPixels | Encoded encoding bitmap

fun lossless :: "encoding \<Rightarrow> bool" where
  "lossless PNG = True"
| "lossless (JPEG q) = False"
| "lossless (WEBP q) = False"

fun encodingOf :: "(string \<times> rat) option \<Rightarrow> encoding" where
  "encodingOf None = PNG"
| "encodingOf (Some (t, q)) =
     (if t = ''image/jpeg'' then JPEG q else if t = ''image/webp'' then WEBP q else PNG)"

text \<open>
  An entry of the \<open>photos\<close> array is whatever \<open>capturePhoto\<close> returned: a data URL, or
  \<open>undefined\<close> (\<open>None\<close>).
\<close>

type_synonym photo = "data_url option"

record image =
  i_src :: data_url
  i_width :: nat
  i_height :: nat

text \<open>
  \<open>img.src = photoData\<close>: the browser fires \<open>load\<close> only when the source decodes to an
  image; for \<open>undefined\<close> and for \<open>data:,\<close> it fires \<open>error\<close>, for which the source
  installs no handler.
\<close>

fun loadImage :: "photo \<Rightarrow> image option" where
  "loadImage None = None"
| "loadImage (Some NoPixels) = None"
| "loadImage (Some (Encoded e b)) =
     (if 0 < b_width b \<and> 0 < b_height b
      then Some \<lparr>i_src = Encoded e b, i_width = b_width b, i_height = b_height b\<rparr>
      else None)"

section \<open>The strip canvas, at the level of drawing commands\<close>

text \<open>
  Filters, gradients and text have no pixel-level model here: the strip canvas records the
  drawing commands in the order they were issued, each with the drawing state (fill style,
  filter, font, text alignment) that was in effect.
\<close>

datatype fill_style =
    Color string
  | RadialGradient rat rat rat rat rat rat "(rat \<times> string) list"

record draw_state =
  fillStyle :: fill_style
  ctx_filter :: string
  font :: string
  textAlign :: string

datatype path_shape = RoundRect rat rat rat rat rat

datatype paint =
    FillRect rat rat rat rat
  | FillPath "path_shape list"
  | DrawImage data_url rat rat rat rat rat rat rat rat
  | FillText string rat rat

record strip_canvas =
  s_width :: rat
  s_height :: rat
  cur :: draw_state
  stack :: "draw_state list"
  path :: "path_shape list"
  painted :: "(draw_state \<times> paint) list"

definition default_state :: draw_state where
  "default_state =
     \<lparr>fillStyle = Color ''#000000'', ctx_filter = ''none'', font = ''10px sans-serif'',
      textAlign = ''start''\<rparr>"

definition new_strip_canvas :: strip_canvas where
  "new_strip_canvas =
     \<lparr>s_width = 300, s_height = 150, cur = default_state, stack = [], path = [], painted = []\<rparr>"

text \<open>Assigning \<open>canvas.width\<close> or \<open>canvas.height\<close> clears the canvas and resets its context.\<close>

definition set_width :: "rat \<Rightarrow> strip_canvas \<Rightarrow> strip_canvas" where
  "set_width w c = c\<lparr>s_width := w, cur := default_state, stack := [], path := [], painted := []\<rparr>"

definition set_height :: "rat \<Rightarrow> strip_canvas \<Rightarrow> strip_canvas" where
  "set_height h c = c\<lparr>s_height := h, cur := default_state, stack := [], path := [], painted := []\<rparr>"

definition set_fillStyle :: "fill_style \<Rightarrow> strip_canvas \<Rightarrow> strip_canvas" where
  "set_fillStyle v c = c\<lparr>cur := (cur c)\<lparr>fillStyle := v\<rparr>\<rparr>"

definition set_filter :: "string \<Rightarrow> strip_canvas \<Rightarrow> strip_canvas" where
  "set_filter v c = c\<lparr>cur := (cur c)\<lparr>ctx_filter := v\<rparr>\<rparr>"

definition set_font :: "string \<Rightarrow> strip_canvas \<Rightarrow> strip_canvas" where
  "set_font v c = c\<lparr>cur := (cur c)\<lparr>font := v\<rparr>\<rparr>"

definition set_textAlign :: "string \<Rightarrow> strip_canvas \<Rightarrow> strip_canvas" where
  "set_textAlign v c = c\<lparr>cur := (cur c)\<lparr>textAlign := v\<rparr>\<rparr>"

definition put :: "paint \<Rightarrow> strip_canvas \<Rightarrow> strip_canvas" where
  "put p c = c\<lparr>painted := painted c @ [(cur c, p)]\<rparr>"

definition fillRect :: "rat \<Rightarrow> rat \<Rightarrow> rat \<Rightarrow> rat \<Rightarrow> strip_canvas \<Rightarrow> strip_canvas" where
  "fillRect x y w h c = put (FillRect x y w h) c"

definition beginPath :: "strip_canvas \<Rightarrow> strip_canvas" where
  "beginPath c = c\<lparr>path := []\<rparr>"

definition roundRect :: "rat \<Rightarrow> rat \<Rightarrow> rat \<Rightarrow> rat \<Rightarrow> rat \<Rightarrow> strip_canvas \<Rightarrow> strip_canvas" where
  "roundRect x y w h r c = c\<lparr>path := path c @ [RoundRect x y w h r]\<rparr>"

definition fill :: "strip_canvas \<Rightarrow> strip_canvas" where
  "fill c = put (FillPath (path c)) c"

definition save :: "strip_canvas \<Rightarrow> strip_canvas" where
  "save c = c\<lparr>stack := cur c # stack c\<rparr>"

definition restore :: "strip_canvas \<Rightarrow> strip_canvas" where
  "restore c = (case stack c of [] \<Rightarrow> c | d # ds \<Rightarrow> c\<lparr>cur := d, stack := ds\<rparr>)"

definition drawImage ::
  "image \<Rightarrow> rat \<Rightarrow> rat \<Rightarrow> rat \<Rightarrow> rat \<Rightarrow> rat \<Rightarrow> rat \<Rightarrow> rat \<Rightarrow> rat \<Rightarrow> strip_canvas \<Rightarrow> strip_canvas" where
  "drawImage img x y w h dx dy dw dh c = put (DrawImage (i_src img) x y w h dx dy dw dh) c"

definition fillText :: "string \<Rightarrow> rat \<Rightarrow> rat \<Rightarrow> strip_canvas \<Rightarrow> strip_canvas" where
  "fillText t x y c = put (FillText t x y) c"

section \<open>Rendering the strip\<close>

definition sprocketWidth :: rat where "sprocketWidth = 20"
definition sprocketHeight :: rat where "sprocketHeight = 30"
definition sprocketGap :: rat where "sprocketGap = 40"
definition sprocketColor :: string where "sprocketColor = ''#e5e5e5''"

text \<open>The loop \<open>for (let y = 20; y < totalHeight; y += sprocketGap + sprocketHeight)\<close>.\<close>

function sprocketLoop :: "rat \<Rightarrow> strip_canvas \<Rightarrow> strip_canvas" where
  "sprocketLoop y c =
     (if y < totalHeight
      then sprocketLoop (y + (sprocketGap + sprocketHeight))
             (fill (roundRect (totalWidth - 15 - sprocketWidth) y sprocketWidth sprocketHeight 4
               (beginPath
                 (fill (roundRect 15 y sprocketWidth sprocketHeight 4
                   (beginPath (set_fillStyle (Color sprocketColor) c)))))))
      else c)"
  by pat_completeness auto
termination
proof (relation "measure (\<lambda>(y, c). nat \<lceil>totalHeight - y\<rceil>)")
  show "wf (measure (\<lambda>(y, c). nat \<lceil>totalHeight - y\<rceil>))" by simp
next
  fix y :: rat and c :: strip_canvas
  assume "y < totalHeight"
  then have "0 < \<lceil>totalHeight - y\<rceil>" by simp
  moreover have "\<lceil>totalHeight - (y + (sprocketGap + sprocketHeight))\<rceil> = \<lceil>totalHeight - y\<rceil> - 70"
  proof -
    have "totalHeight - (y + (sprocketGap + sprocketHeight)) = (totalHeight - y) - of_int 70"
      by (simp add: sprocketGap_def sprocketHeight_def)
    then show ?thesis by (simp only: ceiling_diff_of_int)
  qed
  ultimately show "((y + (sprocketGap + sprocketHeight),
          fill (roundRect (totalWidth - 15 - sprocketWidth) y sprocketWidth sprocketHeight 4
            (beginPath (fill (roundRect 15 y sprocketWidth sprocketHeight 4
              (beginPath (set_fillStyle (Color sprocketColor) c))))))),
         (y, c)) \<in> measure (\<lambda>(y, c). nat \<lceil>totalHeight - y\<rceil>)"
    by simp
qed

declare sprocketLoop.simps [simp del]

text \<open>The glyph U+2665 (black heart suit), as its UTF-8 bytes.\<close>

definition heart :: string where
  "heart = [CHR 0xE2, CHR 0x99, CHR 0xA5]"

text \<open>The block ``Apply Overlay to Canvas'' of \<open>img.onload\<close>.\<close>

definition drawOverlay :: "overlay_entry \<Rightarrow> rat \<Rightarrow> strip_canvas \<Rightarrow> strip_canvas" where
  "drawOverlay currentOverlay yPos c =
     (if o_id currentOverlay = ''vignette'' then
        (let gradient = RadialGradient
               (sidePadding + photoWidth / 2) (yPos + photoHeight / 2) (photoHeight * (3 / 10))
               (sidePadding + photoWidth / 2) (yPos + photoHeight / 2) (photoHeight * (8 / 10))
               [(0, ''rgba(0,0,0,0)''), (1, ''rgba(0,0,0,0.6)'')]
         in fillRect sidePadding yPos photoWidth photoHeight (set_fillStyle gradient c))
      else if o_id currentOverlay = ''hearts'' then
        fillText heart (sidePadding + photoWidth - 50) (yPos + photoHeight - 20)
          (fillText heart (sidePadding + 20) (yPos + 50)
            (set_font ''40px serif''
              (set_fillStyle (Color ''rgba(255, 150, 150, 0.7)'')
                (set_filter ''none'' c))))
      else c)"

text \<open>
  The block ``4. Footer Text (Only once)''; \<open>today\<close> is
  \<open>new Date().toLocaleDateString().toUpperCase()\<close>.
\<close>

definition drawFooter :: "string \<Rightarrow> strip_canvas \<Rightarrow> strip_canvas" where
  "drawFooter today c =
     fillText today (totalWidth / 2) (totalHeight - 25)
       (set_font ''16px Courier New''
         (set_fillStyle (Color ''#888888'')
           (fillText ''MEMORIES'' (totalWidth / 2) (totalHeight - 50)
             (set_textAlign ''center''
               (set_font ''bold 32px Courier New''
                 (set_fillStyle (Color ''#ffffff'') c))))))"

text \<open>The callback \<open>img.onload\<close> of the photo with index \<open>i\<close>, once \<open>img\<close> has loaded.\<close>

definition onload ::
  "string \<Rightarrow> nat \<Rightarrow> image \<Rightarrow> filter_entry \<Rightarrow> overlay_entry \<Rightarrow> strip_canvas \<Rightarrow> strip_canvas" where
  "onload today i img currentFilter currentOverlay ctx =
     (let yPos = topPadding + of_nat i * (photoHeight + gap);
          c1 = save ctx;
          c2 = (if canvasFilter currentFilter \<noteq> ''''
                then set_filter (canvasFilter currentFilter) c1 else c1);
          r = cropRect (of_nat (i_width img)) (of_nat (i_height img));
          c3 = drawImage img (sx r) (sy r) (sW r) (sH r)
                 sidePadding yPos photoWidth photoHeight c2;
          c4 = drawOverlay currentOverlay yPos c3;
          c5 = restore c4
      in if i = 2 then drawFooter today c5 else c5)"

text \<open>
  The synchronous part of the strip effect, once its guard has passed: size the canvas,
  paint the background and the sprocket holes.
\<close>

definition drawBase :: "strip_canvas \<Rightarrow> strip_canvas" where
  "drawBase canvas =
     sprocketLoop 20
       (fillRect 0 0 totalWidth totalHeight
         (set_fillStyle (Color ''#111111'')
           (set_height totalHeight (set_width totalWidth canvas))))"

section \<open>The capture canvas, at the level of pixels\<close>

text \<open>
  The hidden canvas of \<open>capturePhoto\<close> is modelled with its bitmap. Its transformation
  matrix is kept as \<open>x' = a * x + e\<close>, \<open>y' = d * y + f\<close>: the source only translates and
  scales. Assigning the width or the height clears the bitmap to transparent black and
  resets the matrix to the identity.
\<close>

record video =
  videoWidth :: nat
  videoHeight :: nat
  frame :: "nat \<Rightarrow> nat \<Rightarrow> rgba"

record capture_canvas =
  c_width :: nat
  c_height :: nat
  c_a :: rat
  c_d :: rat
  c_e :: rat
  c_f :: rat
  c_rows :: "rgba list list"

definition blank :: "nat \<Rightarrow> nat \<Rightarrow> rgba list list" where
  "blank w h = replicate h (replicate w (0, 0, 0, 0))"

definition new_capture_canvas :: capture_canvas where
  "new_capture_canvas =
     \<lparr>c_width = 300, c_height = 150, c_a = 1, c_d = 1, c_e = 0, c_f = 0, c_rows = blank 300 150\<rparr>"

definition set_c_width :: "nat \<Rightarrow> capture_canvas \<Rightarrow> capture_canvas" where
  "set_c_width w c =
     \<lparr>c_width = w, c_height = c_height c, c_a = 1, c_d = 1, c_e = 0, c_f = 0,
      c_rows = blank w (c_height c)\<rparr>"

definition set_c_height :: "nat \<Rightarrow> capture_canvas \<Rightarrow> capture_canvas" where
  "set_c_height h c =
     \<lparr>c_width = c_width c, c_height = h, c_a = 1, c_d = 1, c_e = 0, c_f = 0,
      c_rows = blank (c_width c) h\<rparr>"

definition translate :: "rat \<Rightarrow> rat \<Rightarrow> capture_canvas \<Rightarrow> capture_canvas" where
  "translate tx ty c = c\<lparr>c_e := c_e c + c_a c * tx, c_f := c_f c + c_d c * ty\<rparr>"

definition scale :: "rat \<Rightarrow> rat \<Rightarrow> capture_canvas \<Rightarrow> capture_canvas" where
  "scale kx ky c = c\<lparr>c_a := c_a c * kx, c_d := c_d c * ky\<rparr>"

text \<open>
  \<open>context.drawImage(video, dx, dy, dw, dh)\<close>: the device pixel \<open>(X, Y)\<close> takes the colour
  of the video pixel under its centre, when the centre lies in the transformed destination
  rectangle; it keeps its colour otherwise. A video without pixels draws nothing.
\<close>

definition sample :: "video \<Rightarrow> capture_canvas \<Rightarrow> rat \<Rightarrow> rat \<Rightarrow> rat \<Rightarrow> rat \<Rightarrow> nat \<Rightarrow> nat \<Rightarrow> rgba option" where
  "sample v c dx dy dw dh X Y =
     (if c_a c = 0 \<or> c_d c = 0 \<or> videoWidth v = 0 \<or> videoHeight v = 0 then None
      else (let x = (of_nat X + 1 / 2 - c_e c) / c_a c;
                y = (of_nat Y + 1 / 2 - c_f c) / c_d c
            in if dx \<le> x \<and> x < dx + dw \<and> dy \<le> y \<and> y < dy + dh
               then Some (frame v (nat \<lfloor>(x - dx) * of_nat (videoWidth v) / dw\<rfloor>)
                                  (nat \<lfloor>(y - dy) * of_nat (videoHeight v) / dh\<rfloor>))
               else None))"

definition drawVideo :: "video \<Rightarrow> rat \<Rightarrow> rat \<Rightarrow> rat \<Rightarrow> rat \<Rightarrow> capture_canvas \<Rightarrow> capture_canvas" where
  "drawVideo v dx dy dw dh c =
     c\<lparr>c_rows :=
         map (\<lambda>(Y, row). map (\<lambda>(X, p). case sample v c dx dy dw dh X Y of
                                             None \<Rightarrow> p | Some q \<Rightarrow> q)
                               (enumerate 0 row))
             (enumerate 0 (c_rows c))\<rparr>"

definition toDataURL :: "(string \<times> rat) option \<Rightarrow> capture_canvas \<Rightarrow> data_url" where
  "toDataURL args c =
     (if c_width c = 0 \<or> c_height c = 0 then NoPixels
      else Encoded (encodingOf args)
             \<lparr>b_width = c_width c, b_height = c_height c, b_rows = c_rows c\<rparr>)"

section \<open>The component: state, handlers, timers\<close>

datatype mode = Idle | Countdown | Capturing | Review

record pending_image =
  p_index :: nat
  p_src :: photo
  p_filter :: filter_entry
  p_overlay :: overlay_entry

record download =
  d_stamp :: nat
  d_encoding :: encoding
  d_canvas :: strip_canvas

text \<open>
  The React state of \<open>App\<close>, the two hidden canvases, and what the browser holds for the
  component: the active \<open>setInterval\<close> callbacks of \<open>runSequence\<close> (each with its closure
  variables \<open>count\<close> and \<open>timer\<close>), the pending \<open>setTimeout\<close> callbacks that will call
  \<open>runSequence(count + 1)\<close>, the number of pending flash timeouts, the images whose \<open>src\<close>
  has been set by the strip effect, and the files handed to the user by \<open>link.click()\<close>.
  \<open>stream\<close> records whether the state \<open>stream\<close> is non-null.
\<close>

record state =
  stream :: bool
  error :: "string option"
  mode :: mode
  photos :: "photo list"
  countdown :: "int option"
  currentFilter :: filter_entry
  currentOverlay :: overlay_entry
  currentPrompt :: string
  flashActive :: bool
  canvas :: capture_canvas
  stripCanvas :: strip_canvas
  intervals :: "(nat \<times> int) list"
  timeouts :: "nat list"
  flashTimeouts :: nat
  imageLoads :: "pending_image list"
  downloads :: "download list"

definition initial :: state where
  "initial =
     \<lparr>stream = False, error = None, mode = Idle, photos = [], countdown = None,
      currentFilter = FILTERS ! 0, currentOverlay = OVERLAYS ! 0, currentPrompt = '''',
      flashActive = False, canvas = new_capture_canvas, stripCanvas = new_strip_canvas,
      intervals = [], timeouts = [], flashTimeouts = 0, imageLoads = [], downloads = []\<rparr>"

text \<open>
  What is mounted follows the JSX: with \<open>error\<close> set only the error screen is rendered;
  otherwise both canvases are, and the video element is when \<open>mode !== 'review'\<close> and
  \<open>stream\<close> is set. A ref is null while its element is not mounted.
\<close>

definition canvasMounted :: "state \<Rightarrow> bool" where
  "canvasMounted s = (error s = None)"

definition videoMounted :: "state \<Rightarrow> bool" where
  "videoMounted s = (error s = None \<and> mode s \<noteq> Review \<and> stream s)"

text \<open>
  The canvas part of \<open>capturePhoto\<close>: match the canvas size to the video, flip horizontally,
  draw the current video frame over the whole canvas.
\<close>

definition paintFrame :: "video \<Rightarrow> capture_canvas \<Rightarrow> capture_canvas" where
  "paintFrame v c =
     (let c1 = set_c_height (videoHeight v) (set_c_width (videoWidth v) c);
          c2 = scale (- 1) 1 (translate (of_nat (c_width c1)) 0 c1)
      in drawVideo v 0 0 (of_nat (c_width c2)) (of_nat (c_height c2)) c2)"

text \<open>
  \<open>capturePhoto\<close>; \<open>v\<close> is the video element's current frame, read only when the element
  is mounted. The result is the returned value and the state after the call.
\<close>

definition capturePhoto :: "video \<Rightarrow> state \<Rightarrow> photo \<times> state" where
  "capturePhoto v s =
     (if \<not> videoMounted s \<or> \<not> canvasMounted s then (None, s)
      else (let c = paintFrame v (canvas s);
                dataUrl = toDataURL (Some (''image/jpeg'', 95 / 100)) c
            in (Some dataUrl,
                s\<lparr>canvas := c, flashActive := True, flashTimeouts := flashTimeouts s + 1\<rparr>)))"

text \<open>
  \<open>runSequence(count)\<close>; \<open>r\<close> stands for \<open>Math.floor(Math.random() * PROMPTS.length)\<close>,
  which is some index below the length.
\<close>

definition runSequence :: "nat \<Rightarrow> nat \<Rightarrow> state \<Rightarrow> state" where
  "runSequence r count s =
     (if count \<ge> 3 then s\<lparr>mode := Review\<rparr>
      else s\<lparr>currentPrompt := PROMPTS ! (r mod length PROMPTS),
             countdown := Some 3,
             intervals := intervals s @ [(count, 3)]\<rparr>)"

definition startSequence :: "nat \<Rightarrow> state \<Rightarrow> state" where
  "startSequence r s = runSequence r 0 (s\<lparr>mode := Countdown, photos := []\<rparr>)"

definition resetBooth :: "state \<Rightarrow> state" where
  "resetBooth s = s\<lparr>photos := [], mode := Idle, countdown := None\<rparr>"

definition remove_nth :: "nat \<Rightarrow> 'a list \<Rightarrow> 'a list" where
  "remove_nth k xs = take k xs @ drop (Suc k) xs"

text \<open>One firing of the \<open>k\<close>-th active interval callback of \<open>runSequence\<close>.\<close>

definition intervalCallback :: "nat \<Rightarrow> video \<Rightarrow> state \<Rightarrow> state" where
  "intervalCallback k v s =
     (case intervals s ! k of (count, timer) \<Rightarrow>
        (let timer' = timer - 1;
             s1 = s\<lparr>countdown := Some timer'\<rparr>
         in if timer' = 0
            then (case capturePhoto v (s1\<lparr>intervals := remove_nth k (intervals s1)\<rparr>) of
                    (photo, s2) \<Rightarrow>
                      s2\<lparr>photos := photos s2 @ [photo], timeouts := timeouts s2 @ [count + 1]\<rparr>)
            else s1\<lparr>intervals := (intervals s1)[k := (count, timer')]\<rparr>))"

text \<open>The \<open>k\<close>-th pending timeout of \<open>runSequence\<close> fires: \<open>runSequence(count + 1)\<close>.\<close>

definition timeoutCallback :: "nat \<Rightarrow> nat \<Rightarrow> state \<Rightarrow> state" where
  "timeoutCallback k r s =
     runSequence r (timeouts s ! k) (s\<lparr>timeouts := remove_nth k (timeouts s)\<rparr>)"

definition flashCallback :: "state \<Rightarrow> state" where
  "flashCallback s = s\<lparr>flashActive := False, flashTimeouts := flashTimeouts s - 1\<rparr>"

text \<open>\<open>downloadStrip\<close>; \<open>now\<close> is \<open>Date.now()\<close>. The strip canvas is exported as PNG.\<close>

definition downloadStrip :: "nat \<Rightarrow> state \<Rightarrow> state" where
  "downloadStrip now s =
     (if \<not> canvasMounted s \<or> length (photos s) = 0 then s
      else s\<lparr>downloads := downloads s @
               [\<lparr>d_stamp = now, d_encoding = encodingOf None, d_canvas = stripCanvas s\<rparr>]\<rparr>)"

text \<open>
  The strip effect (``Render the Photo Strip on a hidden canvas''): the synchronous drawing,
  and one image per photo whose \<open>onload\<close> closes over the index, the filter and the overlay.
\<close>

definition stripEffect :: "state \<Rightarrow> state" where
  "stripEffect s =
     (if mode s = Review \<and> length (photos s) = 3 \<and> canvasMounted s
      then s\<lparr>stripCanvas := drawBase (stripCanvas s),
             imageLoads := imageLoads s @
               map (\<lambda>(i, photoData).
                      \<lparr>p_index = i, p_src = photoData,
                       p_filter = currentFilter s, p_overlay = currentOverlay s\<rparr>)
                   (enumerate 0 (photos s))\<rparr>
      else s)"

text \<open>The \<open>k\<close>-th pending image has loaded: its \<open>onload\<close> runs on the strip canvas.\<close>

definition imageLoaded :: "nat \<Rightarrow> string \<Rightarrow> state \<Rightarrow> state" where
  "imageLoaded k today s =
     (let p = imageLoads s ! k
      in case loadImage (p_src p) of
           None \<Rightarrow> s
         | Some img \<Rightarrow>
             s\<lparr>stripCanvas := onload today (p_index p) img (p_filter p) (p_overlay p) (stripCanvas s),
               imageLoads := remove_nth k (imageLoads s)\<rparr>)"

text \<open>
  React runs the strip effect after a render in which one of its dependencies
  \<open>[mode, photos, currentFilter, currentOverlay]\<close> changed. (React compares by identity;
  a new array with the same three photos never arises, so comparing values gives the same
  runs of the effect whenever its guard passes.)
\<close>

definition deps :: "state \<Rightarrow> mode \<times> photo list \<times> filter_entry \<times> overlay_entry" where
  "deps s = (mode s, photos s, currentFilter s, currentOverlay s)"

definition rerender :: "state \<Rightarrow> state \<Rightarrow> state" where
  "rerender old new = (if deps new \<noteq> deps old then stripEffect new else new)"

section \<open>Events\<close>

text \<open>
  What can happen to the component: the camera promise settles, the user clicks a button,
  a timer fires, an image finishes loading. The numbers carried by an event are the inputs
  the environment supplies at that moment (a random index, \<open>Date.now()\<close>, the video frame,
  the date string).
\<close>

datatype event =
    CameraGranted
  | CameraDenied
  | ClickStart nat
  | ClickFilter filter_entry
  | ClickOverlay overlay_entry
  | ClickDownload nat
  | ClickReset
  | IntervalFires nat video
  | TimeoutFires nat nat
  | FlashTimeoutFires
  | ImageLoaded nat string

text \<open>The handler an event runs, whether or not the interface offers it.\<close>

fun handler :: "event \<Rightarrow> state \<Rightarrow> state" where
  "handler CameraGranted s = s\<lparr>stream := True, error := None\<rparr>"
| "handler CameraDenied s =
     s\<lparr>error := Some ''Unable to access camera. Please allow camera permissions to use the booth.''\<rparr>"
| "handler (ClickStart r) s = startSequence r s"
| "handler (ClickFilter f) s = s\<lparr>currentFilter := f\<rparr>"
| "handler (ClickOverlay ov) s = s\<lparr>currentOverlay := ov\<rparr>"
| "handler (ClickDownload now) s = downloadStrip now s"
| "handler ClickReset s = resetBooth s"
| "handler (IntervalFires k v) s = intervalCallback k v s"
| "handler (TimeoutFires k r) s = timeoutCallback k r s"
| "handler FlashTimeoutFires s = flashCallback s"
| "handler (ImageLoaded k today) s = imageLoaded k today s"

text \<open>
  When the event can happen. The start button and the filter and overlay buttons are
  rendered only while \<open>mode === 'idle'\<close>, the download and reset buttons only while
  \<open>mode === 'review'\<close>, and none of them on the error screen. A timer fires only while it is
  pending; an image loads only when its source decodes.
\<close>

fun enabled :: "event \<Rightarrow> state \<Rightarrow> bool" where
  "enabled CameraGranted s = (\<not> stream s \<and> error s = None)"
| "enabled CameraDenied s = (\<not> stream s \<and> error s = None)"
| "enabled (ClickStart r) s = (error s = None \<and> mode s = Idle)"
| "enabled (ClickFilter f) s = (error s = None \<and> mode s = Idle \<and> f \<in> set FILTERS)"
| "enabled (ClickOverlay ov) s = (error s = None \<and> mode s = Idle \<and> ov \<in> set OVERLAYS)"
| "enabled (ClickDownload now) s = (error s = None \<and> mode s = Review)"
| "enabled ClickReset s = (error s = None \<and> mode s = Review)"
| "enabled (IntervalFires k v) s = (k < length (intervals s))"
| "enabled (TimeoutFires k r) s = (k < length (timeouts s))"
| "enabled FlashTimeoutFires s = (0 < flashTimeouts s)"
| "enabled (ImageLoaded k today) s =
     (k < length (imageLoads s) \<and> loadImage (p_src (imageLoads s ! k)) \<noteq> None)"

text \<open>
  One event taking effect: its handler runs, the component renders again and the strip
  effect runs if due. \<open>step\<close> is \<open>fire\<close> restricted to the events that can happen.
\<close>

definition fire :: "event \<Rightarrow> state \<Rightarrow> state" where
  "fire e s = rerender s (handler e s)"

definition step :: "event \<Rightarrow> state \<Rightarrow> state option" where
  "step e s = (if enabled e s then Some (fire e s) else None)"

fun run :: "event list \<Rightarrow> state \<Rightarrow> state option" where
  "run [] s = Some s"
| "run (e # es) s = (case step e s of None \<Rightarrow> None | Some s' \<Rightarrow> run es s')"

section \<open>Notions used in the properties\<close>

text \<open>
  The invariant of the capture sequence: no countdown timer and no inter-shot delay is
  pending in \<open>idle\<close> and in \<open>review\<close>; during \<open>countdown\<close> exactly one of them is, and its
  closure variable \<open>count\<close> is the number of photos taken so far.
\<close>

definition sequence_ok :: "state \<Rightarrow> bool" where
  "sequence_ok s =
     (mode s \<noteq> Capturing
      \<and> (mode s = Idle \<longrightarrow> intervals s = [] \<and> timeouts s = [] \<and> photos s = [])
      \<and> (mode s = Review \<longrightarrow> intervals s = [] \<and> timeouts s = [] \<and> length (photos s) = 3)
      \<and> (mode s = Countdown \<longrightarrow>
            length (intervals s) + length (timeouts s) = 1
            \<and> (\<forall>(count, timer) \<in> set (intervals s).
                  length (photos s) = count \<and> count < 3 \<and> 0 < timer \<and> timer \<le> 3)
            \<and> (\<forall>count \<in> set (timeouts s).
                  length (photos s) = count \<and> 0 < count \<and> count \<le> 3)))"

text \<open>The photos and texts drawn on a strip canvas, in drawing order.\<close>

fun is_cell_or_text :: "paint \<Rightarrow> bool" where
  "is_cell_or_text (DrawImage u x y w h dx dy dw dh) = True"
| "is_cell_or_text (FillText t x y) = True"
| "is_cell_or_text (FillRect x y w h) = False"
| "is_cell_or_text (FillPath ps) = False"

definition cells_and_texts :: "strip_canvas \<Rightarrow> paint list" where
  "cells_and_texts c = filter is_cell_or_text (map snd (painted c))"

text \<open>The bitmap a capture is expected to hold: every row of the video frame reversed.\<close>

definition mirrored :: "video \<Rightarrow> rgba list list" where
  "mirrored v =
     map (\<lambda>y. map (\<lambda>x. frame v (videoWidth v - 1 - x) y) [0..<videoWidth v]) [0..<videoHeight v]"

text \<open>
  Concrete inputs for the examples: a video frame of two pixels, red on the left and blue on
  the right, the photo \<open>capturePhoto\<close> makes of it, that photo once loaded as an image, and a
  video element whose metadata has not arrived yet.
\<close>

definition two_pixels :: video where
  "two_pixels =
     \<lparr>videoWidth = 2, videoHeight = 1,
      frame = (\<lambda>x y. if x = 0 then (255, 0, 0, 255) else (0, 0, 255, 255))\<rparr>"

definition shot :: data_url where
  "shot = Encoded (JPEG (95 / 100))
            \<lparr>b_width = 2, b_height = 1, b_rows = [[(0, 0, 255, 255), (255, 0, 0, 255)]]\<rparr>"

definition shot_image :: image where
  "shot_image = \<lparr>i_src = shot, i_width = 2, i_height = 1\<rparr>"

definition no_pixels :: video where
  "no_pixels = \<lparr>videoWidth = 0, videoHeight = 0, frame = (\<lambda>x y. (0, 0, 0, 0))\<rparr>"

text \<open>
  Event sequences for the examples. \<open>mid_countdown\<close> is the state one second into the first
  countdown. In \<open>full_session\<close> the camera is ready before the user starts; in
  \<open>late_camera_session\<close> the user starts while the permission prompt is still open and
  grants access during the first inter-shot delay; in \<open>no_camera_session\<close> the camera
  never becomes ready.
\<close>

definition mid_countdown :: state where
  "mid_countdown =
     fire (IntervalFires 0 two_pixels) (fire (ClickStart 0) (fire CameraGranted initial))"

definition iteration :: "nat \<Rightarrow> event list" where
  "iteration r =
     [IntervalFires 0 two_pixels, IntervalFires 0 two_pixels, IntervalFires 0 two_pixels,
      TimeoutFires 0 r]"

definition full_session :: "event list" where
  "full_session = [CameraGranted, ClickStart 0] @ iteration 1 @ iteration 2 @ iteration 3"

definition late_camera_session :: "event list" where
  "late_camera_session =
     [ClickStart 0,
      IntervalFires 0 two_pixels, IntervalFires 0 two_pixels, IntervalFires 0 two_pixels,
      CameraGranted, TimeoutFires 0 1] @ iteration 2 @ iteration 3"

definition no_camera_session :: "event list" where
  "no_camera_session = [ClickStart 0] @ iteration 1 @ iteration 2 @ iteration 3"

text \<open>The state after a list of events, whether or not the interface offers them.\<close>

fun fires :: "event list \<Rightarrow> state \<Rightarrow> state" where
  "fires [] s = s"
| "fires (e # es) s = fires es (fire e s)"



text \<open>
  A session in which the user first picks the filter ``Classic B and W'' and the overlay
  ``Vignette''; \<open>styled_countdowns\<close> stops before the last inter-shot delay expires.
\<close>

definition styled_countdowns :: "event list" where
  "styled_countdowns =
     [CameraGranted, ClickFilter (FILTERS ! 3), ClickOverlay (OVERLAYS ! 3), ClickStart 0]
     @ iteration 1 @ iteration 2
     @ [IntervalFires 0 two_pixels, IntervalFires 0 two_pixels, IntervalFires 0 two_pixels]"

definition styled_session :: "event list" where
  "styled_session = styled_countdowns @ [TimeoutFires 0 3]"

section \<open>Properties of the crop rectangle\<close>

lemma dRatio_value: "photoWidth / photoHeight = 4 / 3"
  by (simp add: photoWidth_def photoHeight_def)

lemma cropRect_wide:
  assumes "0 < h" "w / h > 4 / 3"
  shows "cropRect w h = \<lparr>sx = (w - h * (4 / 3)) / 2, sy = 0, sW = h * (4 / 3), sH = h\<rparr>"
  using assms by (simp add: cropRect_def dRatio_value Let_def)

lemma cropRect_tall:
  assumes "0 < h" "\<not> w / h > 4 / 3"
  shows "cropRect w h = \<lparr>sx = 0, sy = (h - w / (4 / 3)) / 2, sW = w, sH = w / (4 / 3)\<rparr>"
  using assms by (simp add: cropRect_def dRatio_value Let_def)

text \<open>
  Claim C5. For a source image of positive width \<open>w\<close> and height \<open>h\<close> the crop rectangle has
  exactly the aspect ratio of the destination cell, lies inside the source image, keeps the
  full height and has equal left and right margins when the source is wider than the cell
  ratio, keeps the full width and has equal top and bottom margins otherwise, and is scaled
  into the cell by the same factor on both axes.
\<close>

theorem crop_center_fill:
  fixes w h :: nat
  assumes "0 < w" and "0 < h"
  defines "c \<equiv> cropRect (of_nat w) (of_nat h)"
  shows "sW c / sH c = photoWidth / photoHeight
       \<and> 0 < sW c \<and> 0 < sH c
       \<and> 0 \<le> sx c \<and> 0 \<le> sy c \<and> sx c + sW c \<le> of_nat w \<and> sy c + sH c \<le> of_nat h
       \<and> (of_nat w / of_nat h > photoWidth / photoHeight \<longrightarrow>
            sH c = of_nat h \<and> sy c = 0 \<and> sx c = of_nat w - (sx c + sW c))
       \<and> (\<not> of_nat w / of_nat h > photoWidth / photoHeight \<longrightarrow>
            sW c = of_nat w \<and> sx c = 0 \<and> sy c = of_nat h - (sy c + sH c))
       \<and> photoWidth / sW c = photoHeight / sH c"
proof (cases "(of_nat w :: rat) / of_nat h > 4 / 3")
  case True
  have hp: "(0::rat) < of_nat h" and wp: "(0::rat) < of_nat w" using assms by simp_all
  from True hp have lt: "(of_nat h :: rat) * (4 / 3) < of_nat w"
    by (simp add: field_simps)
  have eq: "c = \<lparr>sx = (of_nat w - of_nat h * (4 / 3)) / 2, sy = 0,
                 sW = of_nat h * (4 / 3), sH = of_nat h\<rparr>"
    unfolding c_def using cropRect_wide [OF hp True] .
  show ?thesis
    using True hp wp lt unfolding eq dRatio_value
    by (simp add: photoWidth_def photoHeight_def field_simps)
next
  case False
  have hp: "(0::rat) < of_nat h" and wp: "(0::rat) < of_nat w" using assms by simp_all
  from False hp have le: "(of_nat w :: rat) * 3 \<le> of_nat h * 4"
    by (simp add: field_simps)
  have eq: "c = \<lparr>sx = 0, sy = (of_nat h - of_nat w / (4 / 3)) / 2,
                 sW = of_nat w, sH = of_nat w / (4 / 3)\<rparr>"
    unfolding c_def using cropRect_tall [OF hp False] .
  show ?thesis
    using False hp wp le unfolding eq dRatio_value
    by (simp add: photoWidth_def photoHeight_def field_simps)
qed

theorem crop_center_fill_witness:
  "(0::nat) < 1920 \<and> (0::nat) < 1080
   \<and> sW (cropRect 1920 1080) / sH (cropRect 1920 1080) = photoWidth / photoHeight
   \<and> sx (cropRect 1920 1080) = 240 \<and> sW (cropRect 1920 1080) = 1440
   \<and> sx (cropRect 1920 1080) + sW (cropRect 1920 1080) \<le> 1920"
  using crop_center_fill [of 1920 1080]
  by (simp add: cropRect_def photoWidth_def photoHeight_def Let_def)


section \<open>Size of the strip canvas\<close>

lemma sprocketLoop_size:
  "s_width (sprocketLoop y c) = s_width c \<and> s_height (sprocketLoop y c) = s_height c"
proof (induction y c rule: sprocketLoop.induct)
  case (1 y c)
  show ?case
  proof (cases "y < totalHeight")
    case True
    with 1 show ?thesis
      by (subst (1 2) sprocketLoop.simps)
         (simp add: fill_def put_def roundRect_def beginPath_def set_fillStyle_def)
  next
    case False
    then show ?thesis by (subst (1 2) sprocketLoop.simps) simp
  qed
qed

lemma drawBase_size: "s_width (drawBase c) = totalWidth \<and> s_height (drawBase c) = totalHeight"
  by (simp add: drawBase_def sprocketLoop_size fillRect_def put_def set_fillStyle_def
      set_height_def set_width_def)

text \<open>
  Claim C6. Whenever the strip effect renders (review mode, three photos, canvas mounted),
  whatever the canvas was before, the strip canvas gets the width
  \<open>photoWidth + 2 * sidePadding\<close> and the height
  \<open>topPadding + 3 * photoHeight + 2 * gap + bottomPadding\<close>, which for the constants of the
  source are 760 and 1570.
\<close>

theorem strip_canvas_dimensions:
  assumes "mode s = Review" and "length (photos s) = 3" and "canvasMounted s"
  shows "s_width (stripCanvas (stripEffect s)) = photoWidth + 2 * sidePadding
       \<and> s_height (stripCanvas (stripEffect s))
           = topPadding + 3 * photoHeight + 2 * gap + bottomPadding
       \<and> s_width (stripCanvas (stripEffect s)) = 760
       \<and> s_height (stripCanvas (stripEffect s)) = 1570
       \<and> photoWidth = 600 \<and> photoHeight = 450 \<and> gap = 30 \<and> sidePadding = 80
       \<and> topPadding = 60 \<and> bottomPadding = 100"
  using assms
  by (simp add: stripEffect_def drawBase_size totalWidth_def totalHeight_def photoWidth_def
      photoHeight_def gap_def sidePadding_def topPadding_def bottomPadding_def)

theorem strip_canvas_dimensions_witness:
  "mode (initial\<lparr>mode := Review, photos := [None, None, None]\<rparr>) = Review
   \<and> length (photos (initial\<lparr>mode := Review, photos := [None, None, None]\<rparr>)) = 3
   \<and> canvasMounted (initial\<lparr>mode := Review, photos := [None, None, None]\<rparr>)
   \<and> s_width (stripCanvas (stripEffect (initial\<lparr>mode := Review, photos := [None, None, None]\<rparr>)))
       = 760
   \<and> s_height (stripCanvas (stripEffect (initial\<lparr>mode := Review, photos := [None, None, None]\<rparr>)))
       = 1570"
  using strip_canvas_dimensions [of "initial\<lparr>mode := Review, photos := [None, None, None]\<rparr>"]
  by (simp add: canvasMounted_def initial_def)

section \<open>The invariant of the capture sequence\<close>

lemma rerender_sequence [simp]:
  "mode (rerender s s') = mode s'" "photos (rerender s s') = photos s'"
  "intervals (rerender s s') = intervals s'" "timeouts (rerender s s') = timeouts s'"
  "error (rerender s s') = error s'" "stream (rerender s s') = stream s'"
  by (simp_all add: rerender_def stripEffect_def)

lemma sequence_ok_rerender [simp]: "sequence_ok (rerender s s') = sequence_ok s'"
  by (simp add: sequence_ok_def)

lemma capturePhoto_sequence:
  "mode (snd (capturePhoto v s)) = mode s" "photos (snd (capturePhoto v s)) = photos s"
  "intervals (snd (capturePhoto v s)) = intervals s" "timeouts (snd (capturePhoto v s)) = timeouts s"
  by (simp_all add: capturePhoto_def Let_def)

lemma sequence_ok_initial: "sequence_ok initial"
  by (simp add: sequence_ok_def initial_def)

lemma sequence_ok_pending:
  assumes "sequence_ok s" "intervals s \<noteq> [] \<or> timeouts s \<noteq> []"
  shows "mode s = Countdown"
  using assms by (cases "mode s") (simp_all add: sequence_ok_def)

lemma sequence_ok_interval:
  assumes "sequence_ok s" "k < length (intervals s)"
  obtains c t where "k = 0" "mode s = Countdown" "intervals s = [(c, t)]" "timeouts s = []"
    "length (photos s) = c" "c < 3" "0 < t" "t \<le> 3"
proof -
  from assms have m: "mode s = Countdown" by (intro sequence_ok_pending) auto
  from assms(2) obtain x xs where x: "intervals s = x # xs" by (cases "intervals s") auto
  obtain c t where ct: "x = (c, t)" by (cases x)
  from assms(1) m x have "xs = []" "timeouts s = []" by (simp_all add: sequence_ok_def)
  moreover from assms(1) m x ct have "length (photos s) = c" "c < 3" "0 < t" "t \<le> 3"
    by (simp_all add: sequence_ok_def)
  ultimately show thesis using that [of c t] assms(2) m x ct by simp
qed

lemma sequence_ok_timeout:
  assumes "sequence_ok s" "k < length (timeouts s)"
  obtains c where "k = 0" "mode s = Countdown" "intervals s = []" "timeouts s = [c]"
    "length (photos s) = c" "0 < c" "c \<le> 3"
proof -
  from assms have m: "mode s = Countdown" by (intro sequence_ok_pending) auto
  from assms(2) obtain c xs where x: "timeouts s = c # xs" by (cases "timeouts s") auto
  from assms(1) m x have "xs = []" "intervals s = []" by (simp_all add: sequence_ok_def)
  moreover from assms(1) m x have "length (photos s) = c" "0 < c" "c \<le> 3"
    by (simp_all add: sequence_ok_def)
  ultimately show thesis using that [of c] assms(2) m x by simp
qed

lemma sequence_ok_handler:
  assumes "sequence_ok s" "enabled e s"
  shows "sequence_ok (handler e s)"
proof (cases e)
  case (ClickStart r)
  with assms show ?thesis
    by (simp add: sequence_ok_def startSequence_def runSequence_def)
next
  case ClickReset
  with assms show ?thesis by (simp add: sequence_ok_def resetBooth_def)
next
  case (ClickDownload n)
  with assms show ?thesis by (simp add: sequence_ok_def downloadStrip_def)
next
  case (IntervalFires k v)
  with assms have "k < length (intervals s)" by simp
  with assms(1) obtain c t where k0: "k = 0" and m: "mode s = Countdown"
    and i: "intervals s = [(c, t)]" and to: "timeouts s = []"
    and ph: "length (photos s) = c" and c: "c < 3" and t: "0 < t" "t \<le> 3"
    by (rule sequence_ok_interval)
  show ?thesis
  proof (cases "t = 1")
    case True
    let ?s1 = "s\<lparr>countdown := Some 0, intervals := []\<rparr>"
    obtain p s2 where cp: "capturePhoto v ?s1 = (p, s2)"
      by (cases "capturePhoto v ?s1")
    from capturePhoto_sequence [of v ?s1] cp
    have "mode s2 = mode s" "photos s2 = photos s" "intervals s2 = []" "timeouts s2 = timeouts s"
      by simp_all
    with True i to ph c m cp show ?thesis
      by (simp add: IntervalFires k0 intervalCallback_def remove_nth_def sequence_ok_def Let_def)
  next
    case False
    with i to ph c t m show ?thesis
      by (simp add: IntervalFires k0 intervalCallback_def sequence_ok_def Let_def)
  qed
next
  case (TimeoutFires k r)
  with assms have "k < length (timeouts s)" by simp
  with assms(1) obtain c where k0: "k = 0" and m: "mode s = Countdown"
    and i: "intervals s = []" and to: "timeouts s = [c]"
    and ph: "length (photos s) = c" and c: "0 < c" "c \<le> 3"
    by (rule sequence_ok_timeout)
  from i to ph c m show ?thesis
    by (simp add: TimeoutFires k0 timeoutCallback_def runSequence_def remove_nth_def sequence_ok_def)
next
  case (ImageLoaded k t)
  with assms show ?thesis
    by (simp add: sequence_ok_def imageLoaded_def Let_def split: option.splits)
next
  case CameraGranted
  with assms show ?thesis by (simp add: sequence_ok_def)
next
  case CameraDenied
  with assms show ?thesis by (simp add: sequence_ok_def)
next
  case (ClickFilter f)
  with assms show ?thesis by (simp add: sequence_ok_def)
next
  case (ClickOverlay ov)
  with assms show ?thesis by (simp add: sequence_ok_def)
next
  case FlashTimeoutFires
  with assms show ?thesis by (simp add: sequence_ok_def flashCallback_def)
qed

lemma sequence_ok_step: "sequence_ok s \<Longrightarrow> step e s = Some s' \<Longrightarrow> sequence_ok s'"
  by (auto simp: step_def fire_def sequence_ok_handler split: if_splits)

lemma sequence_ok_run: "sequence_ok s \<Longrightarrow> run es s = Some s' \<Longrightarrow> sequence_ok s'"
proof (induction es arbitrary: s)
  case Nil
  then show ?case by simp
next
  case (Cons e es)
  then show ?case by (auto split: option.splits dest: sequence_ok_step)
qed



section \<open>What a capture holds\<close>

lemma sample_mirror:
  assumes "X < w" "Y < h" "videoWidth v = w" "videoHeight v = h"
    "c_a c = - 1" "c_d c = 1" "c_e c = of_nat w" "c_f c = 0"
  shows "sample v c 0 0 (of_nat w) (of_nat h) X Y = Some (frame v (w - 1 - X) Y)"
proof -
  have w0: "(of_nat w :: rat) \<noteq> 0" and h0: "(of_nat h :: rat) \<noteq> 0" using assms by auto
  have fx: "\<lfloor>(of_nat w :: rat) - (of_nat X + 1 / 2)\<rfloor> = int w - int X - 1"
    by (rule floor_unique) (simp_all add: algebra_simps)
  have fy: "\<lfloor>(of_nat Y :: rat) + 1 / 2\<rfloor> = int Y"
    by (rule floor_unique) simp_all
  have x: "((of_nat X :: rat) + 1 / 2 - of_nat w) / (- 1) = of_nat w - of_nat X - 1 / 2"
    by (simp add: algebra_simps)
  have inx: "(0::rat) \<le> of_nat w - of_nat X - 1 / 2"
    "(of_nat w :: rat) - of_nat X - 1 / 2 < of_nat w"
    using assms(1) by (simp_all add: algebra_simps)
  have iny: "(of_nat Y :: rat) + 1 / 2 < of_nat h"
    using assms(2) by (simp add: algebra_simps)
  have nx: "nat (int w - int X - 1) = w - Suc X" by simp
  show ?thesis
    using assms w0 h0 inx iny
    by (simp add: sample_def Let_def x fx fy nx)
qed

lemma drawVideo_mirror:
  assumes "videoWidth v = w" "videoHeight v = h"
    "c_a c = - 1" "c_d c = 1" "c_e c = of_nat w" "c_f c = 0" "c_rows c = blank w h"
  shows "c_rows (drawVideo v 0 0 (of_nat w) (of_nat h) c) = mirrored v"
proof (rule nth_equalityI)
  show len: "length (c_rows (drawVideo v 0 0 (of_nat w) (of_nat h) c)) = length (mirrored v)"
    using assms by (simp add: drawVideo_def mirrored_def blank_def)
  fix Y assume "Y < length (c_rows (drawVideo v 0 0 (of_nat w) (of_nat h) c))"
  with len assms have Y: "Y < h" by (simp add: mirrored_def)
  show "c_rows (drawVideo v 0 0 (of_nat w) (of_nat h) c) ! Y = mirrored v ! Y"
  proof (rule nth_equalityI)
    show "length (c_rows (drawVideo v 0 0 (of_nat w) (of_nat h) c) ! Y) = length (mirrored v ! Y)"
      using assms Y by (simp add: drawVideo_def mirrored_def blank_def nth_enumerate_eq)
  next
    fix X assume "X < length (c_rows (drawVideo v 0 0 (of_nat w) (of_nat h) c) ! Y)"
    with assms Y have X: "X < w"
      by (simp add: drawVideo_def blank_def nth_enumerate_eq)
    from sample_mirror [OF X Y assms(1-6)] assms Y X
    show "c_rows (drawVideo v 0 0 (of_nat w) (of_nat h) c) ! Y ! X = mirrored v ! Y ! X"
      by (simp add: drawVideo_def mirrored_def blank_def nth_enumerate_eq)
  qed
qed

lemma paintFrame_result:
  "c_width (paintFrame v c) = videoWidth v" "c_height (paintFrame v c) = videoHeight v"
  "c_rows (paintFrame v c) = mirrored v"
proof -
  let ?c1 = "set_c_height (videoHeight v) (set_c_width (videoWidth v) c)"
  let ?c2 = "scale (- 1) 1 (translate (of_nat (c_width ?c1)) 0 ?c1)"
  have c2: "c_a ?c2 = - 1" "c_d ?c2 = 1" "c_e ?c2 = of_nat (videoWidth v)" "c_f ?c2 = 0"
    "c_rows ?c2 = blank (videoWidth v) (videoHeight v)" "c_width ?c2 = videoWidth v"
    "c_height ?c2 = videoHeight v"
    by (simp_all add: scale_def translate_def set_c_height_def set_c_width_def)
  have p: "paintFrame v c = drawVideo v 0 0 (of_nat (videoWidth v)) (of_nat (videoHeight v)) ?c2"
    using c2(6,7) by (simp add: paintFrame_def Let_def)
  show "c_rows (paintFrame v c) = mirrored v"
    unfolding p by (rule drawVideo_mirror [OF refl refl c2(1-5)])
  show "c_width (paintFrame v c) = videoWidth v" "c_height (paintFrame v c) = videoHeight v"
    unfolding p using c2(6,7) by (simp_all add: drawVideo_def)
qed

lemma toDataURL_paintFrame:
  "toDataURL args (paintFrame v c) =
     (if videoWidth v = 0 \<or> videoHeight v = 0 then NoPixels
      else Encoded (encodingOf args)
             \<lparr>b_width = videoWidth v, b_height = videoHeight v, b_rows = mirrored v\<rparr>)"
  by (simp add: toDataURL_def paintFrame_result)

lemma two_pixels_shot [simp]:
  "toDataURL (Some (''image/jpeg'', 19 / 20)) (paintFrame two_pixels c) = shot"
proof -
  have "[0..<2] = [0, 1]" by (simp add: upt_rec)
  then have "mirrored two_pixels = [[(0, 0, 255, 255), (255, 0, 0, 255)]]"
    by (simp add: mirrored_def two_pixels_def)
  then show ?thesis
    by (simp add: toDataURL_paintFrame shot_def two_pixels_def)
qed

lemma no_pixels_shot [simp]: "toDataURL args (paintFrame no_pixels c) = NoPixels"
  by (simp add: toDataURL_paintFrame no_pixels_def)



section \<open>Facts for evaluating event sequences\<close>

lemma run_fires: "run es s = Some s' \<Longrightarrow> s' = fires es s"
  by (induction es arbitrary: s) (auto simp: step_def split: if_splits option.splits)

lemma run_append:
  "run (xs @ ys) s = (case run xs s of None \<Rightarrow> None | Some s' \<Rightarrow> run ys s')"
  by (induction xs arbitrary: s) (auto split: option.splits)

lemma imageLoaded_fire: "fire (ImageLoaded k d) s = imageLoaded k d s"
  by (simp add: fire_def rerender_def deps_def imageLoaded_def Let_def split: option.splits)

lemma downloadStrip_fire: "fire (ClickDownload n) s = downloadStrip n s"
  by (simp add: fire_def rerender_def deps_def downloadStrip_def)

lemmas controller_defs = fire_def rerender_def deps_def stripEffect_def startSequence_def
  runSequence_def resetBooth_def intervalCallback_def timeoutCallback_def capturePhoto_def
  videoMounted_def canvasMounted_def remove_nth_def initial_def flashCallback_def Let_def

lemmas canvas_defs = set_fillStyle_def set_filter_def set_font_def set_textAlign_def put_def
  fillRect_def beginPath_def roundRect_def fill_def save_def restore_def drawImage_def fillText_def

lemmas layout_defs = photoWidth_def photoHeight_def gap_def sidePadding_def topPadding_def
  bottomPadding_def totalWidth_def totalHeight_def

section \<open>Timers across start and reset\<close>




text \<open>
  The handlers themselves cancel nothing. Were \<open>resetBooth\<close> or \<open>startSequence\<close> called one
  second into a countdown, the running interval would stay pending, and after a start it
  would deliver its photo into the new list. The component never makes these calls: in that
  state neither button is rendered.
\<close>

lemma handlers_cancel_nothing:
  "intervals mid_countdown = [(0, 2)]
   \<and> \<not> enabled (ClickStart 1) mid_countdown \<and> \<not> enabled ClickReset mid_countdown
   \<and> intervals (resetBooth mid_countdown) = [(0, 2)]
   \<and> intervals (startSequence 1 mid_countdown) = [(0, 2), (0, 3)]
   \<and> photos (intervalCallback 0 two_pixels (intervalCallback 0 two_pixels
         (startSequence 1 mid_countdown))) = [Some shot]"
  by (simp add: mid_countdown_def controller_defs)



section \<open>A capture without a usable video\<close>

text \<open>
  Claim C2 at a failing input: the user starts while the camera stream is not there yet, so
  no video element is mounted when the first countdown expires. \<open>capturePhoto\<close> returns
  \<open>undefined\<close>; \<open>runSequence\<close> appends it to the photo list and schedules the next iteration,
  which starts a second later. With the video element mounted but still without intrinsic
  size, the capture yields the placeholder \<open>data:,\<close>, flashes, and is appended as well.
\<close>

theorem failed_capture_is_appended:
  "map_option photos
     (run [ClickStart r, IntervalFires 0 v, IntervalFires 0 v', IntervalFires 0 v''] initial)
     = Some [None]
   \<and> map_option timeouts
     (run [ClickStart r, IntervalFires 0 v, IntervalFires 0 v', IntervalFires 0 v''] initial)
     = Some [1]
   \<and> map_option intervals
     (run [ClickStart r, IntervalFires 0 v, IntervalFires 0 v', IntervalFires 0 v'',
           TimeoutFires 0 r'] initial)
     = Some [(1, 3)]
   \<and> map_option photos
     (run [CameraGranted, ClickStart r, IntervalFires 0 v, IntervalFires 0 v',
           IntervalFires 0 no_pixels] initial)
     = Some [Some NoPixels]
   \<and> map_option timeouts
     (run [CameraGranted, ClickStart r, IntervalFires 0 v, IntervalFires 0 v',
           IntervalFires 0 no_pixels] initial)
     = Some [1]
   \<and> map_option flashActive
     (run [CameraGranted, ClickStart r, IntervalFires 0 v, IntervalFires 0 v',
           IntervalFires 0 no_pixels] initial)
     = Some True"
  by (simp add: step_def controller_defs)

section \<open>Reaching review\<close>

text \<open>
  Claim C3 at a failing input: when the camera never becomes ready, the three iterations
  still run and the mode becomes \<open>review\<close> while the photo list holds three \<open>undefined\<close>
  entries and not a single captured frame.
\<close>

theorem review_without_frames:
  "map_option mode (run no_camera_session initial) = Some Review
   \<and> map_option photos (run no_camera_session initial) = Some [None, None, None]"
  by (simp add: no_camera_session_def iteration_def step_def controller_defs)

text \<open>
  What does hold: in every reachable state in \<open>review\<close> the photo list has exactly three
  entries and no timer of the sequence is pending, and with a ready camera the three
  entries are the three captured frames.
\<close>

lemma review_has_three_entries:
  assumes "run evs initial = Some s" "mode s = Review"
  shows "length (photos s) = 3 \<and> intervals s = [] \<and> timeouts s = []"
proof -
  from sequence_ok_initial assms(1) have "sequence_ok s" by (rule sequence_ok_run)
  with assms(2) show ?thesis by (simp add: sequence_ok_def)
qed

lemma full_session_result:
  "map_option mode (run full_session initial) = Some Review
   \<and> map_option photos (run full_session initial) = Some [Some shot, Some shot, Some shot]
   \<and> map_option intervals (run full_session initial) = Some []
   \<and> map_option timeouts (run full_session initial) = Some []"
  by (simp add: full_session_def iteration_def step_def controller_defs)



section \<open>The encoding of a capture\<close>

text \<open>
  Claim C4, as stated, fails: the still is not encoded losslessly. With the camera ready,
  the capture of the two-pixel frame is a JPEG data URL of quality 0.95, and JPEG is lossy.
\<close>

theorem capture_is_lossy:
  "fst (capturePhoto two_pixels (fire CameraGranted initial)) = Some shot
   \<and> shot = Encoded (JPEG (95 / 100))
              \<lparr>b_width = 2, b_height = 1, b_rows = [[(0, 0, 255, 255), (255, 0, 0, 255)]]\<rparr>
   \<and> \<not> lossless (JPEG (95 / 100))"
  by (simp add: controller_defs shot_def)

text \<open>
  Claim C4, amended. With the video element and the canvas mounted, \<open>capturePhoto\<close> hands to
  the encoder a bitmap of the video's intrinsic width and height in which the pixel at
  \<open>(x, y)\<close> is the video pixel at \<open>(width - 1 - x, y)\<close>, and returns that bitmap encoded, at
  capture time, as JPEG of quality 0.95, which is lossy (for a video without pixels it
  returns \<open>data:,\<close>); loaded as an image, the still has the video's width and height. The
  export is the step that is lossless: whenever the download button is clicked,
  \<open>downloadStrip\<close> encodes the strip canvas as PNG.
\<close>

theorem capture_is_mirrored_jpeg:
  "(videoMounted s \<and> canvasMounted s \<longrightarrow>
      fst (capturePhoto v s) =
        Some (if videoWidth v = 0 \<or> videoHeight v = 0 then NoPixels
              else Encoded (JPEG (95 / 100))
                     \<lparr>b_width = videoWidth v, b_height = videoHeight v, b_rows = mirrored v\<rparr>)
    \<and> (0 < videoWidth v \<and> 0 < videoHeight v \<longrightarrow>
          map_option i_width (loadImage (fst (capturePhoto v s))) = Some (videoWidth v)
        \<and> map_option i_height (loadImage (fst (capturePhoto v s))) = Some (videoHeight v)))
   \<and> length (mirrored v) = videoHeight v
   \<and> (\<forall>y < videoHeight v. length (mirrored v ! y) = videoWidth v
         \<and> (\<forall>x < videoWidth v. mirrored v ! y ! x = frame v (videoWidth v - 1 - x) y))
   \<and> \<not> lossless (JPEG (95 / 100))
   \<and> (enabled (ClickDownload now) t \<and> photos t \<noteq> [] \<longrightarrow>
         downloads (fire (ClickDownload now) t)
           = downloads t @ [\<lparr>d_stamp = now, d_encoding = PNG, d_canvas = stripCanvas t\<rparr>])
   \<and> lossless PNG"
  by (simp add: capturePhoto_def Let_def toDataURL_paintFrame mirrored_def
      downloadStrip_fire downloadStrip_def canvasMounted_def)

theorem capture_is_mirrored_jpeg_witness:
  "videoMounted (fire CameraGranted initial) \<and> canvasMounted (fire CameraGranted initial)
   \<and> 0 < videoWidth two_pixels \<and> 0 < videoHeight two_pixels
   \<and> fst (capturePhoto two_pixels (fire CameraGranted initial))
       = Some (Encoded (JPEG (95 / 100))
                \<lparr>b_width = 2, b_height = 1, b_rows = mirrored two_pixels\<rparr>)
   \<and> map_option i_width (loadImage (fst (capturePhoto two_pixels (fire CameraGranted initial))))
       = Some 2
   \<and> mirrored two_pixels ! 0 ! 0 = frame two_pixels 1 0
   \<and> mirrored two_pixels ! 0 ! 1 = frame two_pixels 0 0
   \<and> enabled (ClickDownload 7) (fires full_session initial)
   \<and> photos (fires full_session initial) \<noteq> []
   \<and> map d_encoding (downloads (fire (ClickDownload 7) (fires full_session initial))) = [PNG]"
proof -
  have m: "videoMounted (fire CameraGranted initial)" "canvasMounted (fire CameraGranted initial)"
    by (simp_all add: controller_defs)
  have v: "videoWidth two_pixels = 2" "videoHeight two_pixels = 1"
    by (simp_all add: two_pixels_def)
  have f: "enabled (ClickDownload 7) (fires full_session initial)"
    "photos (fires full_session initial) \<noteq> []"
    "downloads (fires full_session initial) = []"
    by (simp_all add: full_session_def iteration_def controller_defs)
  from capture_is_mirrored_jpeg
         [of "fire CameraGranted initial" two_pixels 7 "fires full_session initial"] m v f
  show ?thesis by simp
qed

section \<open>What one image callback paints\<close>

lemma onload_painted:
  fixes d i img f ov c
  defines "yPos \<equiv> topPadding + of_nat i * (photoHeight + gap)"
    and "r \<equiv> cropRect (of_nat (i_width img)) (of_nat (i_height img))"
    and "st \<equiv> (if canvasFilter f \<noteq> '''' then (cur c)\<lparr>ctx_filter := canvasFilter f\<rparr> else cur c)"
  shows "painted (onload d i img f ov c) =
     painted c
     @ [(st, DrawImage (i_src img) (sx r) (sy r) (sW r) (sH r) sidePadding yPos photoWidth photoHeight)]
     @ (if o_id ov = ''vignette''
        then [(st\<lparr>fillStyle := RadialGradient
                     (sidePadding + photoWidth / 2) (yPos + photoHeight / 2) (photoHeight * (3 / 10))
                     (sidePadding + photoWidth / 2) (yPos + photoHeight / 2) (photoHeight * (8 / 10))
                     [(0, ''rgba(0,0,0,0)''), (1, ''rgba(0,0,0,0.6)'')]\<rparr>,
               FillRect sidePadding yPos photoWidth photoHeight)]
        else if o_id ov = ''hearts''
        then [(st\<lparr>fillStyle := Color ''rgba(255, 150, 150, 0.7)'', ctx_filter := ''none'',
                   font := ''40px serif''\<rparr>,
               FillText heart (sidePadding + 20) (yPos + 50)),
              (st\<lparr>fillStyle := Color ''rgba(255, 150, 150, 0.7)'', ctx_filter := ''none'',
                   font := ''40px serif''\<rparr>,
               FillText heart (sidePadding + photoWidth - 50) (yPos + photoHeight - 20))]
        else [])
     @ (if i = 2
        then [((cur c)\<lparr>fillStyle := Color ''#ffffff'', font := ''bold 32px Courier New'',
                       textAlign := ''center''\<rparr>,
               FillText ''MEMORIES'' (totalWidth / 2) (totalHeight - 50)),
              ((cur c)\<lparr>fillStyle := Color ''#888888'', font := ''16px Courier New'',
                       textAlign := ''center''\<rparr>,
               FillText d (totalWidth / 2) (totalHeight - 25))]
        else [])"
  unfolding yPos_def r_def st_def
  by (simp add: onload_def drawOverlay_def drawFooter_def canvas_defs Let_def)

lemma onload_cur:
  "cur (onload d i img f ov c) =
     (if i = 2 then (cur c)\<lparr>fillStyle := Color ''#888888'', font := ''16px Courier New'',
                            textAlign := ''center''\<rparr>
      else cur c)"
  by (simp add: onload_def drawOverlay_def drawFooter_def canvas_defs Let_def)

lemma shot_crop:
  "cropRect (of_nat (i_width shot_image)) (of_nat (i_height shot_image))
     = \<lparr>sx = 1 / 3, sy = 0, sW = 4 / 3, sH = 1\<rparr>"
  by (simp add: shot_image_def cropRect_def layout_defs Let_def)






section \<open>The order of the image callbacks\<close>

lemma sprocketLoop_cells:
  "filter is_cell_or_text (map snd (painted (sprocketLoop y c)))
     = filter is_cell_or_text (map snd (painted c))"
proof (induction y c rule: sprocketLoop.induct)
  case (1 y c)
  show ?case
  proof (cases "y < totalHeight")
    case True
    with 1 show ?thesis
      by (subst sprocketLoop.simps) (simp add: canvas_defs)
  next
    case False
    then show ?thesis by (subst sprocketLoop.simps) simp
  qed
qed

lemma drawBase_cells: "filter is_cell_or_text (map snd (painted (drawBase c))) = []"
  by (simp add: drawBase_def sprocketLoop_cells canvas_defs set_width_def set_height_def)

lemma shot_loads: "loadImage (Some shot) = Some shot_image"
  by (simp add: shot_def shot_image_def)

lemma full_session_run: "run full_session initial = Some (fires full_session initial)"
proof -
  from full_session_result obtain s where "run full_session initial = Some s" by auto
  then show ?thesis using run_fires by blast
qed

lemma full_session_state:
  "imageLoads (fires full_session initial)
     = [\<lparr>p_index = 0, p_src = Some shot, p_filter = FILTERS ! 0, p_overlay = OVERLAYS ! 0\<rparr>,
        \<lparr>p_index = 1, p_src = Some shot, p_filter = FILTERS ! 0, p_overlay = OVERLAYS ! 0\<rparr>,
        \<lparr>p_index = 2, p_src = Some shot, p_filter = FILTERS ! 0, p_overlay = OVERLAYS ! 0\<rparr>]"
  "stripCanvas (fires full_session initial) = drawBase new_strip_canvas"
  by (simp_all add: full_session_def iteration_def controller_defs)

lemma catalog_defaults:
  "canvasFilter (FILTERS ! 0) = ''none''" "o_id (OVERLAYS ! 0) = ''none''"
  by (simp_all add: FILTERS_def OVERLAYS_def)

text \<open>
  Claim C8 at a failing input: a complete session with the camera ready, after which the
  third image finishes loading first, then the first, then the second. The footer is drawn
  right after the third cell, before the first and the second cell are drawn.
\<close>

theorem footer_drawn_before_cells:
  "map_option (cells_and_texts \<circ> stripCanvas)
     (run (full_session @ [ImageLoaded 2 ''3/11/2026'', ImageLoaded 0 ''3/11/2026'',
                           ImageLoaded 0 ''3/11/2026'']) initial)
   = Some [DrawImage shot (1 / 3) 0 (4 / 3) 1 80 1020 600 450,
           FillText ''MEMORIES'' 380 1520,
           FillText ''3/11/2026'' 380 1545,
           DrawImage shot (1 / 3) 0 (4 / 3) 1 80 60 600 450,
           DrawImage shot (1 / 3) 0 (4 / 3) 1 80 540 600 450]"
  by (simp add: run_append full_session_run step_def imageLoaded_fire imageLoaded_def
      full_session_state shot_loads remove_nth_def cells_and_texts_def onload_painted
      drawBase_cells shot_crop catalog_defaults layout_defs)
    (simp add: shot_image_def)

text \<open>When the images load in index order, the footer does come last.\<close>

lemma footer_last_in_index_order:
  "map_option (cells_and_texts \<circ> stripCanvas)
     (run (full_session @ [ImageLoaded 0 ''3/11/2026'', ImageLoaded 0 ''3/11/2026'',
                           ImageLoaded 0 ''3/11/2026'']) initial)
   = Some [DrawImage shot (1 / 3) 0 (4 / 3) 1 80 60 600 450,
           DrawImage shot (1 / 3) 0 (4 / 3) 1 80 540 600 450,
           DrawImage shot (1 / 3) 0 (4 / 3) 1 80 1020 600 450,
           FillText ''MEMORIES'' 380 1520,
           FillText ''3/11/2026'' 380 1545]"
  by (simp add: run_append full_session_run step_def imageLoaded_fire imageLoaded_def
      full_session_state shot_loads remove_nth_def cells_and_texts_def onload_painted
      drawBase_cells shot_crop catalog_defaults layout_defs)
    (simp add: shot_image_def)

text \<open>
  The order matters for the picture as well: the footer leaves the text alignment
  \<open>center\<close> on the context, so the heart glyphs of a cell drawn after the footer are
  centred on their anchors, while in a cell drawn before it they start at their anchors.
\<close>

lemma hearts_alignment_depends_on_order:
  "map (textAlign \<circ> fst)
     (drop (Suc (length (painted (onload d 2 img f (OVERLAYS ! 1) c))))
        (painted (onload d 0 img f (OVERLAYS ! 1) (onload d 2 img f (OVERLAYS ! 1) c))))
     = [''center'', ''center'']
   \<and> map (textAlign \<circ> fst)
     (drop (Suc (length (painted c))) (painted (onload d 0 img f (OVERLAYS ! 1) c)))
     = [textAlign (cur c), textAlign (cur c)]"
  by (simp add: onload_painted onload_cur OVERLAYS_def)

section \<open>Rendering from an incomplete set of frames\<close>

lemma late_camera_session_result:
  "map_option photos (run late_camera_session initial) = Some [None, Some shot, Some shot]
   \<and> map_option mode (run late_camera_session initial) = Some Review"
  by (simp add: late_camera_session_def iteration_def step_def controller_defs)

lemma late_camera_session_run:
  "run late_camera_session initial = Some (fires late_camera_session initial)"
proof -
  from late_camera_session_result obtain s where "run late_camera_session initial = Some s"
    by auto
  then show ?thesis using run_fires by blast
qed

lemma late_camera_session_state:
  "imageLoads (fires late_camera_session initial)
     = [\<lparr>p_index = 0, p_src = None, p_filter = FILTERS ! 0, p_overlay = OVERLAYS ! 0\<rparr>,
        \<lparr>p_index = 1, p_src = Some shot, p_filter = FILTERS ! 0, p_overlay = OVERLAYS ! 0\<rparr>,
        \<lparr>p_index = 2, p_src = Some shot, p_filter = FILTERS ! 0, p_overlay = OVERLAYS ! 0\<rparr>]"
  "stripCanvas (fires late_camera_session initial) = drawBase new_strip_canvas"
  "photos (fires late_camera_session initial) = [None, Some shot, Some shot]"
  "mode (fires late_camera_session initial) = Review"
  "error (fires late_camera_session initial) = None"
  "downloads (fires late_camera_session initial) = []"
  by (simp_all add: late_camera_session_def iteration_def controller_defs)

text \<open>
  Claim C9 at a failing input: the user starts before the camera is ready and grants access
  during the first inter-shot delay, so the photo list is \<open>[undefined, frame, frame]\<close>: two
  frames. The strip effect only checks that the list has three entries and renders. The
  first image can never load; the second and the third do, the footer is drawn, and the
  download exports a strip without its first cell.
\<close>

theorem partial_strip_is_exported:
  "map_option photos (run late_camera_session initial) = Some [None, Some shot, Some shot]
   \<and> map_option mode (run late_camera_session initial) = Some Review
   \<and> map_option (enabled (ImageLoaded 0 ''3/11/2026'')) (run late_camera_session initial)
       = Some False
   \<and> map_option (map (cells_and_texts \<circ> d_canvas) \<circ> downloads)
       (run (late_camera_session @ [ImageLoaded 1 ''3/11/2026'', ImageLoaded 1 ''3/11/2026'',
                                    ClickDownload 7]) initial)
       = Some [[DrawImage shot (1 / 3) 0 (4 / 3) 1 80 540 600 450,
                DrawImage shot (1 / 3) 0 (4 / 3) 1 80 1020 600 450,
                FillText ''MEMORIES'' 380 1520,
                FillText ''3/11/2026'' 380 1545]]"
  by (simp add: late_camera_session_result run_append late_camera_session_run step_def
      imageLoaded_fire imageLoaded_def downloadStrip_fire downloadStrip_def canvasMounted_def
      late_camera_session_state shot_loads remove_nth_def cells_and_texts_def onload_painted
      drawBase_cells shot_crop catalog_defaults layout_defs)
    (simp add: shot_image_def)

text \<open>
  What does hold: with fewer than three entries in the photo list the strip effect draws
  nothing and creates no image. (\<open>downloadStrip\<close> itself only refuses an empty list, but the
  download button is offered in \<open>review\<close> only, where the list has three entries.)
\<close>

lemma no_render_below_three_entries: "length (photos s) < 3 \<Longrightarrow> stripEffect s = s"
  by (simp add: stripEffect_def)

lemma download_guard_refuses_empty_only:
  "downloads (downloadStrip n (initial\<lparr>mode := Review, photos := [Some shot]\<rparr>))
     = [\<lparr>d_stamp = n, d_encoding = PNG, d_canvas = new_strip_canvas\<rparr>]"
  by (simp add: downloadStrip_def canvasMounted_def initial_def)

section \<open>Selecting a filter or an overlay\<close>

lemma loadImage_src: "loadImage (Some u) = Some img \<Longrightarrow> i_src img = u"
  by (cases u) (auto split: if_splits)

lemma styled_choice:
  "FILTERS ! 3 \<in> set FILTERS" "OVERLAYS ! 3 \<in> set OVERLAYS"
  "FILTERS ! 3 \<noteq> FILTERS ! 0" "OVERLAYS ! 3 \<noteq> OVERLAYS ! 0"
  "canvasFilter (FILTERS ! 3) = ''grayscale(100%) contrast(110%) brightness(110%)''"
  "o_id (OVERLAYS ! 3) = ''vignette''"
  by (simp_all add: FILTERS_def OVERLAYS_def)

lemma styled_countdowns_run:
  "run styled_countdowns initial = Some (fires styled_countdowns initial)"
proof -
  have "run styled_countdowns initial \<noteq> None"
    by (simp add: styled_countdowns_def iteration_def step_def controller_defs styled_choice)
  then show ?thesis using run_fires by blast
qed

lemma styled_countdowns_state:
  "mode (fires styled_countdowns initial) = Countdown"
  "photos (fires styled_countdowns initial) = [Some shot, Some shot, Some shot]"
  "error (fires styled_countdowns initial) = None"
  "timeouts (fires styled_countdowns initial) = [3]"
  "currentFilter (fires styled_countdowns initial) = FILTERS ! 3"
  "currentOverlay (fires styled_countdowns initial) = OVERLAYS ! 3"
  "stripCanvas (fires styled_countdowns initial) = new_strip_canvas"
  "imageLoads (fires styled_countdowns initial) = []"
  by (simp_all add: styled_countdowns_def iteration_def controller_defs styled_choice)

text \<open>
  Claim C10. Handling a click on a filter or an overlay button, in any state, sets the
  current filter, respectively the current overlay, and leaves the photo list, the mode and
  every other field of the controller as they are; as a step of the component (the buttons
  are offered in idle) it changes nothing but the selection. If the selection changed, the
  strip effect runs on the state with the new selection. Whenever the strip effect renders
  (review, three photos, canvas mounted), it leaves the photos as they are, redraws the
  base, and creates one image per stored photo that closes over the current filter and
  overlay. Whenever such an image has loaded, the step draws the stored data URL itself
  with the filter set on the context, followed by the decoration of the overlay (and the
  footer for the third cell), and leaves the photos as they are.
\<close>

theorem selection_changes_only_selection:
  "photos (fire (ClickFilter f) s) = photos s
   \<and> mode (fire (ClickFilter f) s) = mode s
   \<and> currentFilter (fire (ClickFilter f) s) = f
   \<and> currentOverlay (fire (ClickFilter f) s) = currentOverlay s
   \<and> countdown (fire (ClickFilter f) s) = countdown s
   \<and> intervals (fire (ClickFilter f) s) = intervals s
   \<and> timeouts (fire (ClickFilter f) s) = timeouts s
   \<and> canvas (fire (ClickFilter f) s) = canvas s
   \<and> downloads (fire (ClickFilter f) s) = downloads s
   \<and> stream (fire (ClickFilter f) s) = stream s
   \<and> error (fire (ClickFilter f) s) = error s
   \<and> currentPrompt (fire (ClickFilter f) s) = currentPrompt s
   \<and> flashActive (fire (ClickFilter f) s) = flashActive s
   \<and> flashTimeouts (fire (ClickFilter f) s) = flashTimeouts s
   \<and> photos (fire (ClickOverlay ov) s) = photos s
   \<and> mode (fire (ClickOverlay ov) s) = mode s
   \<and> currentFilter (fire (ClickOverlay ov) s) = currentFilter s
   \<and> currentOverlay (fire (ClickOverlay ov) s) = ov
   \<and> countdown (fire (ClickOverlay ov) s) = countdown s
   \<and> intervals (fire (ClickOverlay ov) s) = intervals s
   \<and> timeouts (fire (ClickOverlay ov) s) = timeouts s
   \<and> canvas (fire (ClickOverlay ov) s) = canvas s
   \<and> downloads (fire (ClickOverlay ov) s) = downloads s
   \<and> stream (fire (ClickOverlay ov) s) = stream s
   \<and> error (fire (ClickOverlay ov) s) = error s
   \<and> currentPrompt (fire (ClickOverlay ov) s) = currentPrompt s
   \<and> flashActive (fire (ClickOverlay ov) s) = flashActive s
   \<and> flashTimeouts (fire (ClickOverlay ov) s) = flashTimeouts s
   \<and> (enabled (ClickFilter f) s \<longrightarrow> fire (ClickFilter f) s = s\<lparr>currentFilter := f\<rparr>)
   \<and> (enabled (ClickOverlay ov) s \<longrightarrow> fire (ClickOverlay ov) s = s\<lparr>currentOverlay := ov\<rparr>)
   \<and> (f \<noteq> currentFilter s \<longrightarrow>
         fire (ClickFilter f) s = stripEffect (s\<lparr>currentFilter := f\<rparr>))
   \<and> (ov \<noteq> currentOverlay s \<longrightarrow>
         fire (ClickOverlay ov) s = stripEffect (s\<lparr>currentOverlay := ov\<rparr>))
   \<and> (mode t = Review \<and> length (photos t) = 3 \<and> canvasMounted t \<longrightarrow>
         photos (stripEffect t) = photos t
       \<and> stripCanvas (stripEffect t) = drawBase (stripCanvas t)
       \<and> imageLoads (stripEffect t)
           = imageLoads t @
             map (\<lambda>(i, photoData). \<lparr>p_index = i, p_src = photoData,
                                     p_filter = currentFilter t, p_overlay = currentOverlay t\<rparr>)
                 (enumerate 0 (photos t)))
   \<and> (k < length (imageLoads w)
        \<and> imageLoads w ! k = \<lparr>p_index = i, p_src = Some u, p_filter = g, p_overlay = o'\<rparr>
        \<and> loadImage (Some u) = Some img \<and> canvasFilter g \<noteq> '''' \<longrightarrow>
         step (ImageLoaded k d) w = Some (fire (ImageLoaded k d) w)
       \<and> photos (fire (ImageLoaded k d) w) = photos w
       \<and> imageLoads (fire (ImageLoaded k d) w) = remove_nth k (imageLoads w)
       \<and> painted (stripCanvas (fire (ImageLoaded k d) w))
           = painted (stripCanvas w)
             @ [((cur (stripCanvas w))\<lparr>ctx_filter := canvasFilter g\<rparr>,
                 DrawImage u
                   (sx (cropRect (of_nat (i_width img)) (of_nat (i_height img))))
                   (sy (cropRect (of_nat (i_width img)) (of_nat (i_height img))))
                   (sW (cropRect (of_nat (i_width img)) (of_nat (i_height img))))
                   (sH (cropRect (of_nat (i_width img)) (of_nat (i_height img))))
                   sidePadding (topPadding + of_nat i * (photoHeight + gap))
                   photoWidth photoHeight)]
             @ (if o_id o' = ''vignette''
                then [((cur (stripCanvas w))
                         \<lparr>ctx_filter := canvasFilter g,
                          fillStyle := RadialGradient
                            (sidePadding + photoWidth / 2)
                            (topPadding + of_nat i * (photoHeight + gap) + photoHeight / 2)
                            (photoHeight * (3 / 10))
                            (sidePadding + photoWidth / 2)
                            (topPadding + of_nat i * (photoHeight + gap) + photoHeight / 2)
                            (photoHeight * (8 / 10))
                            [(0, ''rgba(0,0,0,0)''), (1, ''rgba(0,0,0,0.6)'')]\<rparr>,
                       FillRect sidePadding (topPadding + of_nat i * (photoHeight + gap))
                         photoWidth photoHeight)]
                else if o_id o' = ''hearts''
                then [((cur (stripCanvas w))
                         \<lparr>fillStyle := Color ''rgba(255, 150, 150, 0.7)'', ctx_filter := ''none'',
                          font := ''40px serif''\<rparr>,
                       FillText heart (sidePadding + 20)
                         (topPadding + of_nat i * (photoHeight + gap) + 50)),
                      ((cur (stripCanvas w))
                         \<lparr>fillStyle := Color ''rgba(255, 150, 150, 0.7)'', ctx_filter := ''none'',
                          font := ''40px serif''\<rparr>,
                       FillText heart (sidePadding + photoWidth - 50)
                         (topPadding + of_nat i * (photoHeight + gap) + photoHeight - 20))]
                else [])
             @ (if i = 2
                then [((cur (stripCanvas w))
                         \<lparr>fillStyle := Color ''#ffffff'', font := ''bold 32px Courier New'',
                          textAlign := ''center''\<rparr>,
                       FillText ''MEMORIES'' (totalWidth / 2) (totalHeight - 50)),
                      ((cur (stripCanvas w))
                         \<lparr>fillStyle := Color ''#888888'', font := ''16px Courier New'',
                          textAlign := ''center''\<rparr>,
                       FillText d (totalWidth / 2) (totalHeight - 25))]
                else []))"
proof -
  have sel: "photos (fire (ClickFilter f) s) = photos s
   \<and> mode (fire (ClickFilter f) s) = mode s
   \<and> currentFilter (fire (ClickFilter f) s) = f
   \<and> currentOverlay (fire (ClickFilter f) s) = currentOverlay s
   \<and> countdown (fire (ClickFilter f) s) = countdown s
   \<and> intervals (fire (ClickFilter f) s) = intervals s
   \<and> timeouts (fire (ClickFilter f) s) = timeouts s
   \<and> canvas (fire (ClickFilter f) s) = canvas s
   \<and> downloads (fire (ClickFilter f) s) = downloads s
   \<and> stream (fire (ClickFilter f) s) = stream s
   \<and> error (fire (ClickFilter f) s) = error s
   \<and> currentPrompt (fire (ClickFilter f) s) = currentPrompt s
   \<and> flashActive (fire (ClickFilter f) s) = flashActive s
   \<and> flashTimeouts (fire (ClickFilter f) s) = flashTimeouts s
   \<and> photos (fire (ClickOverlay ov) s) = photos s
   \<and> mode (fire (ClickOverlay ov) s) = mode s
   \<and> currentFilter (fire (ClickOverlay ov) s) = currentFilter s
   \<and> currentOverlay (fire (ClickOverlay ov) s) = ov
   \<and> countdown (fire (ClickOverlay ov) s) = countdown s
   \<and> intervals (fire (ClickOverlay ov) s) = intervals s
   \<and> timeouts (fire (ClickOverlay ov) s) = timeouts s
   \<and> canvas (fire (ClickOverlay ov) s) = canvas s
   \<and> downloads (fire (ClickOverlay ov) s) = downloads s
   \<and> stream (fire (ClickOverlay ov) s) = stream s
   \<and> error (fire (ClickOverlay ov) s) = error s
   \<and> currentPrompt (fire (ClickOverlay ov) s) = currentPrompt s
   \<and> flashActive (fire (ClickOverlay ov) s) = flashActive s
   \<and> flashTimeouts (fire (ClickOverlay ov) s) = flashTimeouts s"
    by (simp add: fire_def rerender_def stripEffect_def)
  have steps: "(enabled (ClickFilter f) s \<longrightarrow> fire (ClickFilter f) s = s\<lparr>currentFilter := f\<rparr>)
   \<and> (enabled (ClickOverlay ov) s \<longrightarrow> fire (ClickOverlay ov) s = s\<lparr>currentOverlay := ov\<rparr>)"
    by (simp add: fire_def rerender_def stripEffect_def)
  have again: "(f \<noteq> currentFilter s \<longrightarrow>
         fire (ClickFilter f) s = stripEffect (s\<lparr>currentFilter := f\<rparr>))
   \<and> (ov \<noteq> currentOverlay s \<longrightarrow>
         fire (ClickOverlay ov) s = stripEffect (s\<lparr>currentOverlay := ov\<rparr>))"
    by (simp add: fire_def rerender_def deps_def)
  have effect: "mode t = Review \<and> length (photos t) = 3 \<and> canvasMounted t \<longrightarrow>
         photos (stripEffect t) = photos t
       \<and> stripCanvas (stripEffect t) = drawBase (stripCanvas t)
       \<and> imageLoads (stripEffect t)
           = imageLoads t @
             map (\<lambda>(i, photoData). \<lparr>p_index = i, p_src = photoData,
                                     p_filter = currentFilter t, p_overlay = currentOverlay t\<rparr>)
                 (enumerate 0 (photos t))"
    by (simp add: stripEffect_def)
  show ?thesis
    using sel steps again effect
    by (simp add: step_def imageLoaded_fire imageLoaded_def onload_painted loadImage_src
        del: loadImage.simps)
qed

theorem selection_changes_only_selection_witness:
  "enabled (ClickFilter (FILTERS ! 3)) (fire CameraGranted initial)
   \<and> FILTERS ! 3 \<noteq> currentFilter (fire CameraGranted initial)
   \<and> fire (ClickFilter (FILTERS ! 3)) (fire CameraGranted initial)
       = (fire CameraGranted initial)\<lparr>currentFilter := FILTERS ! 3\<rparr>
   \<and> run styled_session initial
       = Some (stripEffect (timeoutCallback 0 3 (fires styled_countdowns initial)))
   \<and> mode (timeoutCallback 0 3 (fires styled_countdowns initial)) = Review
   \<and> length (photos (timeoutCallback 0 3 (fires styled_countdowns initial))) = 3
   \<and> canvasMounted (timeoutCallback 0 3 (fires styled_countdowns initial))
   \<and> imageLoads (stripEffect (timeoutCallback 0 3 (fires styled_countdowns initial)))
       = [\<lparr>p_index = 0, p_src = Some shot, p_filter = FILTERS ! 3, p_overlay = OVERLAYS ! 3\<rparr>,
          \<lparr>p_index = 1, p_src = Some shot, p_filter = FILTERS ! 3, p_overlay = OVERLAYS ! 3\<rparr>,
          \<lparr>p_index = 2, p_src = Some shot, p_filter = FILTERS ! 3, p_overlay = OVERLAYS ! 3\<rparr>]
   \<and> loadImage (Some shot) = Some shot_image \<and> canvasFilter (FILTERS ! 3) \<noteq> ''''
   \<and> map (ctx_filter \<circ> fst)
       (drop (length (painted (drawBase new_strip_canvas)))
         (painted (stripCanvas (fire (ImageLoaded 0 ''3/11/2026'')
            (stripEffect (timeoutCallback 0 3 (fires styled_countdowns initial)))))))
       = [''grayscale(100%) contrast(110%) brightness(110%)'',
          ''grayscale(100%) contrast(110%) brightness(110%)'']
   \<and> map snd
       (drop (length (painted (drawBase new_strip_canvas)))
         (painted (stripCanvas (fire (ImageLoaded 0 ''3/11/2026'')
            (stripEffect (timeoutCallback 0 3 (fires styled_countdowns initial)))))))
       = [DrawImage shot (1 / 3) 0 (4 / 3) 1 80 60 600 450, FillRect 80 60 600 450]"
proof -
  let ?s = "fire CameraGranted initial"
  let ?t = "timeoutCallback 0 3 (fires styled_countdowns initial)"
  let ?w = "stripEffect ?t"
  have s: "enabled (ClickFilter (FILTERS ! 3)) ?s" "FILTERS ! 3 \<noteq> currentFilter ?s"
    by (simp_all add: controller_defs styled_choice)
  have t: "mode ?t = Review" "length (photos ?t) = 3" "canvasMounted ?t"
    "photos ?t = [Some shot, Some shot, Some shot]" "imageLoads ?t = []"
    "currentFilter ?t = FILTERS ! 3" "currentOverlay ?t = OVERLAYS ! 3"
    "stripCanvas ?t = new_strip_canvas"
    by (simp_all add: timeoutCallback_def runSequence_def remove_nth_def canvasMounted_def
        styled_countdowns_state)
  have r: "run styled_session initial = Some ?w"
    by (simp add: styled_session_def run_append styled_countdowns_run step_def fire_def
        rerender_def deps_def timeoutCallback_def runSequence_def remove_nth_def
        styled_countdowns_state)
  have up: "enumerate 0 [Some shot, Some shot, Some shot]
              = [(0, Some shot), (1, Some shot), (2, Some shot)]"
    by simp
  have fv: "canvasFilter (FILTERS ! 3) \<noteq> ''''" by (simp add: styled_choice)
  note inst = selection_changes_only_selection
    [where f = "FILTERS ! 3" and s = "?s" and ov = "OVERLAYS ! 3" and t = "?t" and k = 0
       and w = "?w" and i = 0 and u = shot and g = "FILTERS ! 3" and o' = "OVERLAYS ! 3"
       and img = shot_image and d = "''3/11/2026''"]
  from inst s have a: "fire (ClickFilter (FILTERS ! 3)) ?s = ?s\<lparr>currentFilter := FILTERS ! 3\<rparr>"
    by blast
  from inst t(1-3) have b: "stripCanvas ?w = drawBase (stripCanvas ?t)"
    and c: "imageLoads ?w
       = imageLoads ?t @
         map (\<lambda>(i, photoData). \<lparr>p_index = i, p_src = photoData,
                                 p_filter = currentFilter ?t, p_overlay = currentOverlay ?t\<rparr>)
             (enumerate 0 (photos ?t))"
    by blast+
  from c have c': "imageLoads ?w
       = [\<lparr>p_index = 0, p_src = Some shot, p_filter = FILTERS ! 3, p_overlay = OVERLAYS ! 3\<rparr>,
          \<lparr>p_index = 1, p_src = Some shot, p_filter = FILTERS ! 3, p_overlay = OVERLAYS ! 3\<rparr>,
          \<lparr>p_index = 2, p_src = Some shot, p_filter = FILTERS ! 3, p_overlay = OVERLAYS ! 3\<rparr>]"
    by (simp add: t up)
  have hyp: "0 < length (imageLoads ?w)
        \<and> imageLoads ?w ! 0
            = \<lparr>p_index = 0, p_src = Some shot, p_filter = FILTERS ! 3, p_overlay = OVERLAYS ! 3\<rparr>
        \<and> loadImage (Some shot) = Some shot_image \<and> canvasFilter (FILTERS ! 3) \<noteq> ''''"
    using c' shot_loads fv by simp
  from inst hyp have p: "painted (stripCanvas (fire (ImageLoaded 0 ''3/11/2026'') ?w))
           = painted (stripCanvas ?w)
             @ [((cur (stripCanvas ?w))\<lparr>ctx_filter := canvasFilter (FILTERS ! 3)\<rparr>,
                 DrawImage shot
                   (sx (cropRect (of_nat (i_width shot_image)) (of_nat (i_height shot_image))))
                   (sy (cropRect (of_nat (i_width shot_image)) (of_nat (i_height shot_image))))
                   (sW (cropRect (of_nat (i_width shot_image)) (of_nat (i_height shot_image))))
                   (sH (cropRect (of_nat (i_width shot_image)) (of_nat (i_height shot_image))))
                   sidePadding (topPadding + of_nat 0 * (photoHeight + gap))
                   photoWidth photoHeight)]
             @ (if o_id (OVERLAYS ! 3) = ''vignette''
                then [((cur (stripCanvas ?w))
                         \<lparr>ctx_filter := canvasFilter (FILTERS ! 3),
                          fillStyle := RadialGradient
                            (sidePadding + photoWidth / 2)
                            (topPadding + of_nat 0 * (photoHeight + gap) + photoHeight / 2)
                            (photoHeight * (3 / 10))
                            (sidePadding + photoWidth / 2)
                            (topPadding + of_nat 0 * (photoHeight + gap) + photoHeight / 2)
                            (photoHeight * (8 / 10))
                            [(0, ''rgba(0,0,0,0)''), (1, ''rgba(0,0,0,0.6)'')]\<rparr>,
                       FillRect sidePadding (topPadding + of_nat 0 * (photoHeight + gap))
                         photoWidth photoHeight)]
                else if o_id (OVERLAYS ! 3) = ''hearts''
                then [((cur (stripCanvas ?w))
                         \<lparr>fillStyle := Color ''rgba(255, 150, 150, 0.7)'', ctx_filter := ''none'',
                          font := ''40px serif''\<rparr>,
                       FillText heart (sidePadding + 20)
                         (topPadding + of_nat 0 * (photoHeight + gap) + 50)),
                      ((cur (stripCanvas ?w))
                         \<lparr>fillStyle := Color ''rgba(255, 150, 150, 0.7)'', ctx_filter := ''none'',
                          font := ''40px serif''\<rparr>,
                       FillText heart (sidePadding + photoWidth - 50)
                         (topPadding + of_nat 0 * (photoHeight + gap) + photoHeight - 20))]
                else [])
             @ (if (0::nat) = 2
                then [((cur (stripCanvas ?w))
                         \<lparr>fillStyle := Color ''#ffffff'', font := ''bold 32px Courier New'',
                          textAlign := ''center''\<rparr>,
                       FillText ''MEMORIES'' (totalWidth / 2) (totalHeight - 50)),
                      ((cur (stripCanvas ?w))
                         \<lparr>fillStyle := Color ''#888888'', font := ''16px Courier New'',
                          textAlign := ''center''\<rparr>,
                       FillText ''3/11/2026'' (totalWidth / 2) (totalHeight - 25))]
                else [])"
    by blast
  have q: "map (ctx_filter \<circ> fst)
       (drop (length (painted (drawBase new_strip_canvas)))
         (painted (stripCanvas (fire (ImageLoaded 0 ''3/11/2026'') ?w))))
       = [''grayscale(100%) contrast(110%) brightness(110%)'',
          ''grayscale(100%) contrast(110%) brightness(110%)'']"
    "map snd
       (drop (length (painted (drawBase new_strip_canvas)))
         (painted (stripCanvas (fire (ImageLoaded 0 ''3/11/2026'') ?w))))
       = [DrawImage shot (1 / 3) 0 (4 / 3) 1 80 60 600 450, FillRect 80 60 600 450]"
    unfolding p b t(8) by (simp_all add: styled_choice shot_crop layout_defs)
  from s a r t(1-3) c' shot_loads fv q show ?thesis
    by (intro conjI)
qed


end
